theory Spec2Isabelle
  imports Main "HOL-Library.AList" "HOL-Library.Char_ord" "HOL-Library.List_Lexorder"
begin

section \<open>Python strings\<close>

text \<open>
  A Python \<open>str\<close> is modelled as a \<open>string\<close> (a list of 8-bit characters).
  The character predicates are those of Python on ASCII text: \<open>str.isspace\<close> and
  the regular-expression class \<open>\s\<close> hold of the codes 9-13 and 28-32, the class
  \<open>\w\<close> of letters, digits and the underscore, and \<open>str.lower\<close> maps
  \<open>A-Z\<close> to \<open>a-z\<close>. Characters above code 127 are taken as caseless
  characters that are neither space nor word characters.
\<close>

definition is_space :: "char \<Rightarrow> bool" where
  "is_space c = ((of_char c :: nat) \<in> set [9, 10, 11, 12, 13, 28, 29, 30, 31, 32])"

definition is_word :: "char \<Rightarrow> bool" where
  "is_word c =
     (let n = (of_char c :: nat)
      in (48 \<le> n \<and> n \<le> 57) \<or> (65 \<le> n \<and> n \<le> 90) \<or> n = 95 \<or> (97 \<le> n \<and> n \<le> 122))"

definition lower_char :: "char \<Rightarrow> char" where
  "lower_char c =
     (let n = (of_char c :: nat) in if 65 \<le> n \<and> n \<le> 90 then char_of (n + 32) else c)"

definition py_lower :: "string \<Rightarrow> string" where
  "py_lower s = map lower_char s"

definition py_strip :: "string \<Rightarrow> string" where
  "py_strip s = rev (dropWhile is_space (rev (dropWhile is_space s)))"

text \<open>\<open>s.split(maxsplit=1)\<close>: the first whitespace-delimited token, and the rest of
  the line after the whitespace that follows it when that rest is not empty.\<close>

definition py_split1 :: "string \<Rightarrow> string list" where
  "py_split1 s =
     (let s1 = dropWhile is_space s
      in if s1 = [] then []
         else
           let tok = takeWhile (\<lambda>c. \<not> is_space c) s1;
               rest = dropWhile is_space (dropWhile (\<lambda>c. \<not> is_space c) s1)
           in if rest = [] then [tok] else [tok, rest])"

definition startswith :: "string \<Rightarrow> string \<Rightarrow> bool" where
  "startswith s p = (take (length p) s = p)"

text \<open>\<open>sub in s\<close> on strings.\<close>

fun py_in :: "string \<Rightarrow> string \<Rightarrow> bool" where
  "py_in sub [] = (sub = [])"
| "py_in sub (x # xs) = (startswith (x # xs) sub \<or> py_in sub xs)"

text \<open>\<open>s.split(c)\<close> for a one-character separator, and \<open>sep.join(xs)\<close>.\<close>

fun split_on :: "char \<Rightarrow> string \<Rightarrow> string list" where
  "split_on c [] = [[]]"
| "split_on c (x # xs) =
     (if x = c then [] # split_on c xs
      else (case split_on c xs of [] \<Rightarrow> [[x]] | y # ys \<Rightarrow> (x # y) # ys))"

fun py_join :: "string \<Rightarrow> string list \<Rightarrow> string" where
  "py_join sep [] = []"
| "py_join sep [x] = x"
| "py_join sep (x # y # ys) = x @ sep @ py_join sep (y # ys)"

definition digit_char :: "nat \<Rightarrow> char" where
  "digit_char d = char_of (48 + d)"

fun str_nat :: "nat \<Rightarrow> string" where
  "str_nat n = (if n < 10 then [digit_char n] else str_nat (n div 10) @ [digit_char (n mod 10)])"

declare str_nat.simps [simp del]

definition backslash :: char where
  "backslash = CHR 0x5C"

section \<open>posixpath\<close>

definition isabs :: "string \<Rightarrow> bool" where
  "isabs s = startswith s ''/''"

definition path_join :: "string \<Rightarrow> string \<Rightarrow> string" where
  "path_join a b =
     (if startswith b ''/'' then b
      else if a = [] \<or> last a = CHR ''/'' then a @ b
      else a @ ''/'' @ b)"

definition rstrip_sep :: "string \<Rightarrow> string" where
  "rstrip_sep s = rev (dropWhile (\<lambda>c. c = CHR ''/'') (rev s))"

text \<open>\<open>posixpath.split\<close>: the text up to and including the last slash, with its
  trailing slashes removed unless it consists of slashes only, and the text after it.\<close>

definition path_split :: "string \<Rightarrow> string \<times> string" where
  "path_split p =
     (let head = rev (dropWhile (\<lambda>c. c \<noteq> CHR ''/'') (rev p));
          tail = rev (takeWhile (\<lambda>c. c \<noteq> CHR ''/'') (rev p))
      in (if head \<noteq> [] \<and> head \<noteq> replicate (length head) (CHR ''/'') then rstrip_sep head
          else head, tail))"

definition dirname :: "string \<Rightarrow> string" where
  "dirname p = fst (path_split p)"

definition basename :: "string \<Rightarrow> string" where
  "basename p = snd (path_split p)"

text \<open>One round of the loop of \<open>posixpath.normpath\<close> over the components.\<close>

definition norm_step :: "bool \<Rightarrow> string list \<Rightarrow> string \<Rightarrow> string list" where
  "norm_step initial_slashes new_comps part =
     (if part = [] \<or> part = ''.'' then new_comps
      else if part \<noteq> ''..'' \<or> (\<not> initial_slashes \<and> new_comps = [])
              \<or> (new_comps \<noteq> [] \<and> last new_comps = ''..'')
      then new_comps @ [part]
      else if new_comps \<noteq> [] then butlast new_comps
      else new_comps)"

definition normpath :: "string \<Rightarrow> string" where
  "normpath path =
     (if path = [] then ''.''
      else
        let initial_slashes =
              (if startswith path ''/''
               then (if startswith path ''//'' \<and> \<not> startswith path ''///'' then 2 else 1 :: nat)
               else 0);
            comps = foldl (norm_step (initial_slashes \<noteq> 0)) [] (split_on (CHR ''/'') path);
            joined = replicate initial_slashes (CHR ''/'') @ py_join ''/'' comps
        in if joined = [] then ''.'' else joined)"

section \<open>The file system\<close>

text \<open>
  The file system is a table from canonical paths (the list of names from the root) to
  nodes. A regular file carries its text when it can be read as UTF-8 text; a directory
  carries its read, write and search permissions. Symbolic links occur as dangling links
  only, and \<open>Special\<close> stands for sockets, pipes and devices. The world also holds the
  working directory of the process, the home directory that \<open>expanduser\<close> yields,
  and the paths at which the operating system refuses \<open>chdir\<close> for a reason outside
  the table (a sandbox policy, a directory that vanishes under a concurrent change).
\<close>

datatype node = File "string option" | Dir bool bool bool | DeadLink | Special

datatype oserror = EPERM | ENOENT | EACCES | EBUSY | EEXIST | ENOTDIR | EISDIR | ENOTEMPTY

fun errno :: "oserror \<Rightarrow> nat" where
  "errno EPERM = 1"
| "errno ENOENT = 2"
| "errno EACCES = 13"
| "errno EBUSY = 16"
| "errno EEXIST = 17"
| "errno ENOTDIR = 20"
| "errno EISDIR = 21"
| "errno ENOTEMPTY = 66"

fun strerror :: "oserror \<Rightarrow> string" where
  "strerror EPERM = ''Operation not permitted''"
| "strerror ENOENT = ''No such file or directory''"
| "strerror EACCES = ''Permission denied''"
| "strerror EBUSY = ''Resource busy''"
| "strerror EEXIST = ''File exists''"
| "strerror ENOTDIR = ''Not a directory''"
| "strerror EISDIR = ''Is a directory''"
| "strerror ENOTEMPTY = ''Directory not empty''"

text \<open>\<open>str(e)\<close> of an \<open>OSError\<close> raised for a path (a path without quotes).\<close>

definition str_oserror :: "oserror \<Rightarrow> string \<Rightarrow> string" where
  "str_oserror e p =
     ''[Errno '' @ str_nat (errno e) @ ''] '' @ strerror e @ '': '' @ [CHR 0x27] @ p @ [CHR 0x27]"

record world =
  tree :: "(string list \<times> node) list"
  cwd :: "string list"
  home :: string
  chdir_refused :: "string list"

text \<open>Path resolution, one component at a time: every step needs the directory it
  starts from to exist and to be searchable.\<close>

fun resolve :: "(string list \<times> node) list \<Rightarrow> string list \<Rightarrow> string list \<Rightarrow> oserror + string list" where
  "resolve t cur [] = Inr cur"
| "resolve t cur (c # cs) =
     (case map_of t cur of
        None \<Rightarrow> Inl ENOENT
      | Some (Dir r w x) \<Rightarrow>
          if \<not> x then Inl EACCES
          else if c = [] \<or> c = ''.'' then resolve t cur cs
          else if c = ''..'' then resolve t (butlast cur) cs
          else resolve t (cur @ [c]) cs
      | Some (File txt) \<Rightarrow> Inl ENOTDIR
      | Some DeadLink \<Rightarrow> Inl ENOENT
      | Some Special \<Rightarrow> Inl ENOTDIR)"

definition locate :: "world \<Rightarrow> string \<Rightarrow> oserror + string list" where
  "locate w p =
     (if p = [] then Inl ENOENT
      else resolve (tree w) (if isabs p then [] else cwd w) (split_on (CHR ''/'') p))"

definition os_lstat :: "world \<Rightarrow> string \<Rightarrow> oserror + node" where
  "os_lstat w p =
     (case locate w p of
        Inl e \<Rightarrow> Inl e
      | Inr cp \<Rightarrow> (case map_of (tree w) cp of None \<Rightarrow> Inl ENOENT | Some n \<Rightarrow> Inr n))"

definition os_path_lexists :: "world \<Rightarrow> string \<Rightarrow> bool" where
  "os_path_lexists w p = (case os_lstat w p of Inr n \<Rightarrow> True | Inl e \<Rightarrow> False)"

definition os_path_exists :: "world \<Rightarrow> string \<Rightarrow> bool" where
  "os_path_exists w p =
     (case os_lstat w p of Inr DeadLink \<Rightarrow> False | Inr n \<Rightarrow> True | Inl e \<Rightarrow> False)"

definition os_path_isdir :: "world \<Rightarrow> string \<Rightarrow> bool" where
  "os_path_isdir w p = (case os_lstat w p of Inr (Dir r wr x) \<Rightarrow> True | _ \<Rightarrow> False)"

definition os_path_isfile :: "world \<Rightarrow> string \<Rightarrow> bool" where
  "os_path_isfile w p = (case os_lstat w p of Inr (File txt) \<Rightarrow> True | _ \<Rightarrow> False)"

definition os_path_islink :: "world \<Rightarrow> string \<Rightarrow> bool" where
  "os_path_islink w p = (case os_lstat w p of Inr DeadLink \<Rightarrow> True | _ \<Rightarrow> False)"

text \<open>\<open>os.access(p, os.R_OK | os.X_OK)\<close> and \<open>os.access(p, os.R_OK)\<close>; the program
  asks both of directories only.\<close>

definition os_access_rx :: "world \<Rightarrow> string \<Rightarrow> bool" where
  "os_access_rx w p = (case os_lstat w p of Inr (Dir r wr x) \<Rightarrow> r \<and> x | _ \<Rightarrow> False)"

definition os_access_r :: "world \<Rightarrow> string \<Rightarrow> bool" where
  "os_access_r w p =
     (case os_lstat w p of Inr (Dir r wr x) \<Rightarrow> r | Inr (File (Some txt)) \<Rightarrow> True | _ \<Rightarrow> False)"

definition children :: "(string list \<times> node) list \<Rightarrow> string list \<Rightarrow> string list" where
  "children t cp = map (\<lambda>e. last (fst e)) (filter (\<lambda>e. fst e \<noteq> [] \<and> butlast (fst e) = cp) t)"

definition os_listdir :: "world \<Rightarrow> string \<Rightarrow> oserror + string list" where
  "os_listdir w p =
     (case locate w p of
        Inl e \<Rightarrow> Inl e
      | Inr cp \<Rightarrow>
          (case map_of (tree w) cp of
             None \<Rightarrow> Inl ENOENT
           | Some (Dir r wr x) \<Rightarrow> if r then Inr (children (tree w) cp) else Inl EACCES
           | Some (File txt) \<Rightarrow> Inl ENOTDIR
           | Some DeadLink \<Rightarrow> Inl ENOENT
           | Some Special \<Rightarrow> Inl ENOTDIR))"

text \<open>Whether an entry may be added to or removed from the directory at a canonical
  path: the directory must be writable and searchable.\<close>

definition parent_writable :: "(string list \<times> node) list \<Rightarrow> string list \<Rightarrow> oserror option" where
  "parent_writable t cp =
     (case map_of t (butlast cp) of
        None \<Rightarrow> Some ENOENT
      | Some (Dir r wr x) \<Rightarrow> if wr \<and> x then None else Some EACCES
      | Some n \<Rightarrow> Some ENOTDIR)"

text \<open>\<open>Path(p).touch()\<close>: an existing entry keeps its content; a missing one is created
  as an empty file. A dangling link points into a directory that does not exist.\<close>

definition path_touch :: "world \<Rightarrow> string \<Rightarrow> oserror + world" where
  "path_touch w p =
     (case locate w p of
        Inl e \<Rightarrow> Inl e
      | Inr cp \<Rightarrow>
          (case map_of (tree w) cp of
             Some DeadLink \<Rightarrow> Inl ENOENT
           | Some n \<Rightarrow> Inr w
           | None \<Rightarrow>
               (case parent_writable (tree w) cp of
                  Some e \<Rightarrow> Inl e
                | None \<Rightarrow> Inr (w\<lparr>tree := AList.update cp (File (Some [])) (tree w)\<rparr>))))"

definition os_mkdir :: "world \<Rightarrow> string \<Rightarrow> oserror + world" where
  "os_mkdir w p =
     (case locate w p of
        Inl e \<Rightarrow> Inl e
      | Inr cp \<Rightarrow>
          (case map_of (tree w) cp of
             Some n \<Rightarrow> Inl EEXIST
           | None \<Rightarrow>
               (case parent_writable (tree w) cp of
                  Some e \<Rightarrow> Inl e
                | None \<Rightarrow> Inr (w\<lparr>tree := AList.update cp (Dir True True True) (tree w)\<rparr>))))"

text \<open>The head and tail that \<open>os.makedirs\<close> works with: \<open>posixpath.split\<close>, applied
  again to the head when the tail is empty.\<close>

definition makedirs_split :: "string \<Rightarrow> string \<times> string" where
  "makedirs_split name =
     (if snd (path_split name) = [] then path_split (fst (path_split name)) else path_split name)"

lemma path_split_length:
  "length (fst (path_split p)) + length (snd (path_split p)) \<le> length p"
proof -
  have a: "length (dropWhile (\<lambda>c. c \<noteq> CHR ''/'') (rev p)) + length (takeWhile (\<lambda>c. c \<noteq> CHR ''/'') (rev p)) = length p"
    using takeWhile_dropWhile_id [of "\<lambda>c. c \<noteq> CHR ''/''" "rev p"]
    by (metis add.commute length_append length_rev)
  have b: "length (rstrip_sep s) \<le> length s" for s
    using length_dropWhile_le [of "\<lambda>c. c = CHR ''/''" "rev s"] by (simp add: rstrip_sep_def)
  show ?thesis
    using a b [of "rev (dropWhile (\<lambda>c. c \<noteq> CHR ''/'') (rev p))"]
    by (auto simp: path_split_def Let_def)
qed

lemma makedirs_split_shorter:
  assumes "snd (makedirs_split name) \<noteq> []"
  shows "length (fst (makedirs_split name)) < length name"
proof -
  have pos: "0 < length (snd (makedirs_split name))"
    using assms by simp
  show ?thesis
  proof (cases "snd (path_split name) = []")
    case True
    have "length (fst (makedirs_split name)) + length (snd (makedirs_split name))
            \<le> length (fst (path_split name))"
      using True path_split_length [of "fst (path_split name)"] by (simp add: makedirs_split_def)
    moreover have "length (fst (path_split name)) \<le> length name"
      using path_split_length [of name] by simp
    ultimately show ?thesis using pos by linarith
  next
    case False
    then have "length (fst (makedirs_split name)) + length (snd (makedirs_split name)) \<le> length name"
      using path_split_length [of name] by (simp add: makedirs_split_def)
    then show ?thesis using pos by linarith
  qed
qed

text \<open>\<open>os.makedirs(name)\<close>: creates the missing directories above \<open>name\<close> first, passing
  over a \<open>FileExistsError\<close> there, then \<open>name\<close> itself. A failure leaves the
  directories made so far in place, so the world is returned in either case.\<close>

function os_makedirs :: "world \<Rightarrow> string \<Rightarrow> oserror option \<times> world" where
  "os_makedirs w name =
     (let ht = makedirs_split name;
          made = (if fst ht \<noteq> [] \<and> snd ht \<noteq> [] \<and> \<not> os_path_exists w (fst ht)
                  then os_makedirs w (fst ht) else (None, w))
      in if fst made \<noteq> None \<and> fst made \<noteq> Some EEXIST then made
         else if snd ht = ''.'' then (None, snd made)
         else (case os_mkdir (snd made) name of
                 Inl e \<Rightarrow> (Some e, snd made)
               | Inr w2 \<Rightarrow> (None, w2)))"
  by pat_completeness auto
termination
  by (relation "measure (\<lambda>(w, name). length name)") (auto simp: makedirs_split_shorter)

declare os_makedirs.simps [simp del]

text \<open>\<open>os.remove\<close> unlinks a file, a link or a special node; \<open>os.rmdir\<close> removes an
  empty directory.\<close>

definition os_remove :: "world \<Rightarrow> string \<Rightarrow> oserror + world" where
  "os_remove w p =
     (case locate w p of
        Inl e \<Rightarrow> Inl e
      | Inr cp \<Rightarrow>
          (case map_of (tree w) cp of
             None \<Rightarrow> Inl ENOENT
           | Some (Dir r wr x) \<Rightarrow> Inl EISDIR
           | Some n \<Rightarrow>
               (case parent_writable (tree w) cp of
                  Some e \<Rightarrow> Inl e
                | None \<Rightarrow> Inr (w\<lparr>tree := AList.delete cp (tree w)\<rparr>))))"

definition os_rmdir :: "world \<Rightarrow> string \<Rightarrow> oserror + world" where
  "os_rmdir w p =
     (case locate w p of
        Inl e \<Rightarrow> Inl e
      | Inr cp \<Rightarrow>
          (case map_of (tree w) cp of
             None \<Rightarrow> Inl ENOENT
           | Some (Dir r wr x) \<Rightarrow>
               if cp = [] then Inl EBUSY
               else if children (tree w) cp \<noteq> [] then Inl ENOTEMPTY
               else (case parent_writable (tree w) cp of
                       Some e \<Rightarrow> Inl e
                     | None \<Rightarrow> Inr (w\<lparr>tree := AList.delete cp (tree w)\<rparr>))
           | Some n \<Rightarrow> Inl ENOTDIR))"

definition os_chdir :: "world \<Rightarrow> string \<Rightarrow> oserror + world" where
  "os_chdir w p =
     (if p \<in> set (chdir_refused w) then Inl EPERM
      else
        (case locate w p of
           Inl e \<Rightarrow> Inl e
         | Inr cp \<Rightarrow>
             (case map_of (tree w) cp of
                None \<Rightarrow> Inl ENOENT
              | Some (Dir r wr x) \<Rightarrow> if x then Inr (w\<lparr>cwd := cp\<rparr>) else Inl EACCES
              | Some n \<Rightarrow> Inl ENOTDIR)))"

text \<open>\<open>Path(p).read_text(encoding='utf-8')\<close>; \<open>None\<close> when it raises.\<close>

definition read_text :: "world \<Rightarrow> string \<Rightarrow> string option" where
  "read_text w p = (case os_lstat w p of Inr (File (Some txt)) \<Rightarrow> Some txt | _ \<Rightarrow> None)"

section \<open>The agent: directory snapshot and local commands\<close>

record entry =
  is_dir :: bool
  content :: "string option"
  error :: "string option"

record agent =
  current_dir :: string
  file_cache :: "(string \<times> entry) list"
  is_processing_api :: bool

type_synonym reply = "string \<times> bool"

text \<open>\<open>_update_file_cache\<close>. \<open>os.path.isdir\<close> answers \<open>False\<close> where \<open>stat\<close> fails
  and raises nothing, so the inner handler of the source is never entered.\<close>

definition update_file_cache :: "agent \<Rightarrow> world \<Rightarrow> agent" where
  "update_file_cache st w =
     st\<lparr>file_cache :=
          (case os_listdir w (current_dir st) of
             Inr items \<Rightarrow>
               foldl (\<lambda>c item.
                        AList.update item
                          \<lparr>is_dir = os_path_isdir w (path_join (current_dir st) item),
                           content = None, error = None\<rparr> c)
                     [] items
           | Inl e \<Rightarrow>
               [(''.error'',
                 \<lparr>is_dir = False,
                  content = Some (''Cannot list directory: '' @ str_oserror e (current_dir st)),
                  error = None\<rparr>)])\<rparr>"

text \<open>\<open>_handle_cd\<close>: first the directory that the argument resolves to, then the
  handler. Only \<open>os.chdir\<close> can raise inside the \<open>try\<close>; the handler then changes
  back, and keeps the new \<open>current_dir\<close> when changing back fails too.\<close>

definition cd_target :: "agent \<Rightarrow> world \<Rightarrow> string \<Rightarrow> string" where
  "cd_target st w path =
     (if path = ''..'' then dirname (current_dir st)
      else if path = ''~'' \<or> path = ''$HOME'' then home w
      else normpath (if \<not> isabs path then path_join (current_dir st) path else path))"

definition handle_cd :: "agent \<Rightarrow> world \<Rightarrow> string \<Rightarrow> reply \<times> agent \<times> world" where
  "handle_cd st w path =
     (let original_dir = current_dir st
      in if path = [] then ((''Usage: cd <directory>'', True), st, w)
         else
           let new_dir = cd_target st w path
           in if \<not> os_path_exists w new_dir
              then ((''Directory not found: '' @ path @ '' (resolved to '' @ new_dir @ '')'', True), st, w)
              else if \<not> os_path_isdir w new_dir
              then ((''Not a directory: '' @ path @ '' (resolved to '' @ new_dir @ '')'', True), st, w)
              else if \<not> os_access_rx w new_dir
              then ((''Permission denied: '' @ new_dir, True), st, w)
              else
                let st1 = st\<lparr>current_dir := new_dir\<rparr>
                in (case os_chdir w new_dir of
                      Inr w1 \<Rightarrow> (([], True), update_file_cache st1 w1, w1)
                    | Inl e \<Rightarrow>
                        (let reverted =
                               (if current_dir st1 \<noteq> original_dir
                                then (case os_chdir w original_dir of
                                        Inr w2 \<Rightarrow> (st1\<lparr>current_dir := original_dir\<rparr>, w2)
                                      | Inl e2 \<Rightarrow> (st1, w))
                                else (st1, w))
                         in ((''Error changing directory: '' @ str_oserror e new_dir, True),
                             fst reverted, snd reverted))))"

definition handle_pwd :: "agent \<Rightarrow> world \<Rightarrow> reply \<times> agent \<times> world" where
  "handle_pwd st w = ((current_dir st, True), st, w)"

definition handle_exit :: "agent \<Rightarrow> world \<Rightarrow> reply \<times> agent \<times> world" where
  "handle_exit st w = ((''exit'', True), st, w)"

definition handle_create_file :: "agent \<Rightarrow> world \<Rightarrow> string \<Rightarrow> reply \<times> agent \<times> world" where
  "handle_create_file st w filename =
     (if filename = [] then ((''Usage: create <filename>'', True), st, w)
      else if py_in ''..'' filename \<or> py_in ''/'' filename \<or> py_in [backslash] filename
      then ((''Invalid characters or path components in filename: '' @ filename, True), st, w)
      else
        let filepath = path_join (current_dir st) filename
        in if os_path_exists w filepath
           then ((''File or directory already exists: '' @ filename, True), st, w)
           else (case path_touch w filepath of
                   Inr w1 \<Rightarrow>
                     ((''File created: '' @ filename, True),
                      st\<lparr>file_cache :=
                           AList.update filename \<lparr>is_dir = False, content = Some [], error = None\<rparr>
                             (file_cache st)\<rparr>,
                      w1)
                 | Inl e \<Rightarrow>
                     ((''Error creating file '' @ [CHR 0x27] @ filename @ [CHR 0x27] @ '': '' @ strerror e,
                       True), st, w)))"

definition handle_mkdir :: "agent \<Rightarrow> world \<Rightarrow> string \<Rightarrow> reply \<times> agent \<times> world" where
  "handle_mkdir st w dname =
     (if dname = [] then ((''Usage: mkdir <dirname>'', True), st, w)
      else if py_in ''..'' dname \<or> py_in ''/'' dname \<or> py_in [backslash] dname
      then ((''Invalid characters or path components in dirname: '' @ dname, True), st, w)
      else
        let dirpath = path_join (current_dir st) dname
        in if os_path_exists w dirpath
           then ((''File or directory already exists: '' @ dname, True), st, w)
           else (case os_makedirs w dirpath of
                   (None, w1) \<Rightarrow>
                     ((''Directory created: '' @ dname, True),
                      st\<lparr>file_cache :=
                           AList.update dname \<lparr>is_dir = True, content = None, error = None\<rparr>
                             (file_cache st)\<rparr>,
                      w1)
                 | (Some e, w1) \<Rightarrow>
                     if errno e = 17
                     then ((''File or directory already exists: '' @ dname, True), st, w1)
                     else ((''Error creating directory '' @ [CHR 0x27] @ dname @ [CHR 0x27] @ '': ''
                              @ strerror e, True), st, w1)))"

definition rm_error :: "string \<Rightarrow> oserror \<Rightarrow> reply" where
  "rm_error name e = (''Error removing '' @ [CHR 0x27] @ name @ [CHR 0x27] @ '': '' @ strerror e, True)"

definition uncache :: "agent \<Rightarrow> string \<Rightarrow> agent" where
  "uncache st name = st\<lparr>file_cache := AList.delete name (file_cache st)\<rparr>"

definition handle_rm :: "agent \<Rightarrow> world \<Rightarrow> string \<Rightarrow> reply \<times> agent \<times> world" where
  "handle_rm st w name =
     (if name = [] then ((''Usage: rm <file_or_empty_dir_name>'', True), st, w)
      else if py_in ''..'' name \<or> name = ''.'' \<or> py_in ''/'' name \<or> py_in [backslash] name
      then ((''Invalid characters or path components in name: '' @ name
               @ ''. Cannot delete relative paths.'', True), st, w)
      else
        let targetpath = path_join (current_dir st) name
        in if \<not> os_path_exists w targetpath
           then (if os_path_lexists w targetpath
                 then (case os_remove w targetpath of
                         Inr w1 \<Rightarrow> ((''Removed broken symbolic link: '' @ name, True), uncache st name, w1)
                       | Inl e \<Rightarrow> (rm_error name e, st, w))
                 else ((''File or directory not found: '' @ name, True), st, w))
           else if os_path_isfile w targetpath \<or> os_path_islink w targetpath
           then (case os_remove w targetpath of
                   Inr w1 \<Rightarrow> ((''Removed file: '' @ name, True), uncache st name, w1)
                 | Inl e \<Rightarrow> (rm_error name e, st, w))
           else if os_path_isdir w targetpath
           then (case os_listdir w targetpath of
                   Inl e \<Rightarrow> (rm_error name e, st, w)
                 | Inr items \<Rightarrow>
                     if items = []
                     then (case os_rmdir w targetpath of
                             Inr w1 \<Rightarrow> ((''Removed empty directory: '' @ name, True), uncache st name, w1)
                           | Inl e \<Rightarrow> (rm_error name e, st, w))
                     else ((''Directory not empty: '' @ name
                              @ ''. Use specific tool for recursive removal.'', True), st, w))
           else ((''Cannot remove '' @ [CHR 0x27] @ name @ [CHR 0x27] @ '': Not a file or directory.'',
                  True), st, w))"

section \<open>Regular expressions\<close>

text \<open>
  The fragment of Python's \<open>re\<close> that the program's patterns use, matched by
  backtracking in Python's order of preference: a greedy construct tries the longer
  match first, a lazy one the shorter. Literal text is compared without regard to case
  (every pattern with letters is used under \<open>re.IGNORECASE\<close>); \<open>LazyAny\<close> is
  \<open>.*?\<close> under \<open>re.DOTALL\<close>; \<open>Dollar\<close> is \<open>$\<close>, which holds at the end of
  the text and before a final newline.
\<close>

datatype cls = Space | Word | NameCh

fun cls_ok :: "cls \<Rightarrow> char \<Rightarrow> bool" where
  "cls_ok Space c = is_space c"
| "cls_ok Word c = is_word c"
| "cls_ok NameCh c = (is_word c \<or> c = CHR ''.'' \<or> c = CHR ''/'' \<or> c = CHR ''-'')"

datatype rx = Lit string | Opt rx | OptLazy rx | Cat rx rx | Plus cls | LazyAny | Group rx | Dollar

text \<open>What is left to match: patterns, the end of the open group (with the text at
  which the group began), and the rest of a greedy repetition.\<close>

datatype frame = Rx rx | EndGroup string | More cls

fun rx_weight :: "rx \<Rightarrow> nat" where
  "rx_weight (Lit s) = Suc (length s)"
| "rx_weight (Opt r) = Suc (rx_weight r)"
| "rx_weight (OptLazy r) = Suc (rx_weight r)"
| "rx_weight (Cat r1 r2) = Suc (rx_weight r1 + rx_weight r2)"
| "rx_weight (Plus k) = 2"
| "rx_weight LazyAny = 1"
| "rx_weight (Group r) = Suc (Suc (rx_weight r))"
| "rx_weight Dollar = 1"

fun frame_weight :: "frame \<Rightarrow> nat" where
  "frame_weight (Rx r) = rx_weight r"
| "frame_weight (EndGroup start) = 1"
| "frame_weight (More k) = 1"

text \<open>\<open>rx_match full fs s g\<close> matches the frames \<open>fs\<close> against \<open>s\<close>, with \<open>g\<close>
  the text of group 1 so far, and yields group 1 and the text left over; with \<open>full\<close>
  the match must use up the text (\<open>re.fullmatch\<close>).\<close>

function rx_match :: "bool \<Rightarrow> frame list \<Rightarrow> string \<Rightarrow> string option \<Rightarrow> (string option \<times> string) option" where
  "rx_match full [] s g = (if full \<and> s \<noteq> [] then None else Some (g, s))"
| "rx_match full (Rx (Lit []) # fs) s g = rx_match full fs s g"
| "rx_match full (Rx (Lit (a # as)) # fs) s g =
     (case s of
        [] \<Rightarrow> None
      | x # xs \<Rightarrow> if lower_char x = lower_char a then rx_match full (Rx (Lit as) # fs) xs g else None)"
| "rx_match full (Rx (Opt r) # fs) s g =
     (case rx_match full (Rx r # fs) s g of
        Some m \<Rightarrow> Some m
      | None \<Rightarrow> rx_match full fs s g)"
| "rx_match full (Rx (OptLazy r) # fs) s g =
     (case rx_match full fs s g of
        Some m \<Rightarrow> Some m
      | None \<Rightarrow> rx_match full (Rx r # fs) s g)"
| "rx_match full (Rx (Cat r1 r2) # fs) s g = rx_match full (Rx r1 # Rx r2 # fs) s g"
| "rx_match full (Rx (Plus k) # fs) s g =
     (case s of
        [] \<Rightarrow> None
      | x # xs \<Rightarrow> if cls_ok k x then rx_match full (More k # fs) xs g else None)"
| "rx_match full (More k # fs) s g =
     (case s of
        [] \<Rightarrow> rx_match full fs [] g
      | x # xs \<Rightarrow>
          if cls_ok k x
          then (case rx_match full (More k # fs) xs g of
                  Some m \<Rightarrow> Some m
                | None \<Rightarrow> rx_match full fs (x # xs) g)
          else rx_match full fs (x # xs) g)"
| "rx_match full (Rx LazyAny # fs) s g =
     (case rx_match full fs s g of
        Some m \<Rightarrow> Some m
      | None \<Rightarrow> (case s of [] \<Rightarrow> None | x # xs \<Rightarrow> rx_match full (Rx LazyAny # fs) xs g))"
| "rx_match full (Rx (Group r) # fs) s g = rx_match full (Rx r # EndGroup s # fs) s g"
| "rx_match full (EndGroup start # fs) s g =
     rx_match full fs s (Some (take (length start - length s) start))"
| "rx_match full (Rx Dollar # fs) s g =
     (if s = [] \<or> s = [CHR 0x0A] then rx_match full fs s g else None)"
  by pat_completeness auto
termination
  by (relation "inv_image (less_than <*lex*> less_than)
                  (\<lambda>(full, fs, s, g). (sum_list (map frame_weight fs), length s))") auto

text \<open>\<open>re.fullmatch(pattern, s, re.IGNORECASE | re.DOTALL)\<close>: \<open>None\<close> when there is
  no match, else group 1 of the match (\<open>None\<close> for a pattern without a group).\<close>

definition fullmatch :: "rx \<Rightarrow> string \<Rightarrow> string option option" where
  "fullmatch r s = map_option fst (rx_match True [Rx r] s None)"

text \<open>\<open>re.findall\<close> for a pattern that is one group and matches no empty text: the
  scan goes on behind each match, and one character further where there is none.\<close>

function findall :: "rx \<Rightarrow> string \<Rightarrow> string list" where
  "findall r s =
     (if s = [] then []
      else (case rx_match False [Rx r] s None of
              None \<Rightarrow> findall r (tl s)
            | Some (g, rest) \<Rightarrow>
                (case g of Some t \<Rightarrow> t | None \<Rightarrow> take (length s - length rest) s)
                  # findall r (drop (max 1 (length s - length rest)) s)))"
  by pat_completeness auto
termination
  by (relation "measure (\<lambda>(r, s). length s)") auto

declare findall.simps [simp del]

fun seq :: "rx list \<Rightarrow> rx" where
  "seq [] = Lit []"
| "seq [r] = r"
| "seq (r # rs) = Cat r (seq rs)"

section \<open>Tree listing\<close>

definition TREE_SPACE :: string where
  "TREE_SPACE = ''    ''"

definition TREE_BRANCH :: string where
  "TREE_BRANCH = [CHR 0xE2, CHR 0x94, CHR 0x82] @ ''   ''"

definition TREE_TEE :: string where
  "TREE_TEE = [CHR 0xE2, CHR 0x94, CHR 0x9C, CHR 0xE2, CHR 0x94, CHR 0x80, CHR 0xE2, CHR 0x94, CHR 0x80] @ '' ''"

definition TREE_LAST :: string where
  "TREE_LAST = [CHR 0xE2, CHR 0x94, CHR 0x94, CHR 0xE2, CHR 0x94, CHR 0x80, CHR 0xE2, CHR 0x94, CHR 0x80] @ '' ''"

text \<open>
  \<open>_build_tree\<close>, with every line it appends recorded together with the \<open>level\<close> of
  the call that appended it, the \<open>item\<close> it stands for (\<open>None\<close> for the error
  marker) and the path of that item (\<open>item_path\<close>; \<open>dir_path\<close> for the marker).
  \<open>build_tree\<close> below is the list of texts, which is what the source returns.
  \<open>os.path.isdir\<close> raises nothing, so the \<open>[Permission Error]\<close> suffix of the source
  is never added.
\<close>

record tline =
  ln_level :: nat
  ln_item :: "string option"
  ln_path :: string
  ln_text :: string

function build_tree_trace :: "world \<Rightarrow> string \<Rightarrow> string \<Rightarrow> nat \<Rightarrow> tline list" where
  "build_tree_trace w dir_path prefix level =
     (case os_listdir w dir_path of
        Inl e \<Rightarrow>
          [\<lparr>ln_level = level, ln_item = None, ln_path = dir_path,
            ln_text = prefix @ TREE_LAST @ ''[Error reading directory]''\<rparr>]
      | Inr names \<Rightarrow>
          (let items = sort (filter (\<lambda>item. \<not> startswith item ''.'') names);
               count = length items
           in concat
                (map (\<lambda>i.
                        let item = items ! i;
                            connector = (if i = count - 1 then TREE_LAST else TREE_TEE);
                            item_path = path_join dir_path item;
                            isdir = os_path_isdir w item_path
                        in \<lparr>ln_level = level, ln_item = Some item, ln_path = item_path,
                            ln_text = prefix @ connector @ item @ (if isdir then ''/'' else [])\<rparr>
                           # (if isdir \<and> level < 3
                              then build_tree_trace w item_path
                                     (prefix @ (if i = count - 1 then TREE_SPACE else TREE_BRANCH))
                                     (level + 1)
                              else []))
                     [0 ..< count])))"
  by pat_completeness auto
termination
  by (relation "measure (\<lambda>(w, dir_path, prefix, level). 4 - level)") auto

declare build_tree_trace.simps [simp del]

definition build_tree :: "world \<Rightarrow> string \<Rightarrow> string \<Rightarrow> nat \<Rightarrow> string list" where
  "build_tree w dir_path prefix level = map ln_text (build_tree_trace w dir_path prefix level)"

definition handle_ls :: "agent \<Rightarrow> world \<Rightarrow> reply \<times> agent \<times> world" where
  "handle_ls st w =
     (let tree_lines = build_tree w (current_dir st) [] 0
      in if tree_lines = []
         then (if \<not> os_path_exists w (current_dir st)
               then ((''Error: Current directory '' @ [CHR 0x27] @ current_dir st @ [CHR 0x27]
                        @ '' not found.'', True), st, w)
               else if \<not> os_access_r w (current_dir st)
               then ((''Error: Permission denied for '' @ [CHR 0x27] @ current_dir st @ [CHR 0x27],
                      True), st, w)
               else ((current_dir st @ '' (empty)'', True), st, w))
         else ((current_dir st @ [CHR 0x0A] @ py_join [CHR 0x0A] tree_lines, True), st, w))"

text \<open>The items of a listing as the loop of \<open>_build_tree\<close> sees them, the line of the
  \<open>i\<close>-th item and the prefix handed to the call for it.\<close>

definition visible :: "string list \<Rightarrow> string list" where
  "visible names = sort (filter (\<lambda>item. \<not> startswith item ''.'') names)"

definition item_line :: "world \<Rightarrow> string \<Rightarrow> string \<Rightarrow> nat \<Rightarrow> string list \<Rightarrow> nat \<Rightarrow> tline" where
  "item_line w d p lvl items i =
     \<lparr>ln_level = lvl, ln_item = Some (items ! i), ln_path = path_join d (items ! i),
      ln_text = p @ (if i = length items - 1 then TREE_LAST else TREE_TEE) @ items ! i
                  @ (if os_path_isdir w (path_join d (items ! i)) then ''/'' else [])\<rparr>"

definition child_prefix :: "string \<Rightarrow> string list \<Rightarrow> nat \<Rightarrow> string" where
  "child_prefix p items i = p @ (if i = length items - 1 then TREE_SPACE else TREE_BRANCH)"

definition help_text :: string where
  "help_text = py_join [CHR 0x0A]
     [''Available Mac Commands:'',
      [CHR 0xE2, CHR 0x80, CHR 0xA2] @ '' help                     - Show this help message'',
      [CHR 0xE2, CHR 0x80, CHR 0xA2] @ '' exit/quit                - Exit the application'',
      [CHR 0xE2, CHR 0x80, CHR 0xA2] @ '' ls                       - List files in current directory'',
      [CHR 0xE2, CHR 0x80, CHR 0xA2] @ '' tree                     - Show directory structure in tree format'',
      [CHR 0xE2, CHR 0x80, CHR 0xA2] @ '' cd <dir>                 - Change directory (supports '' @ [CHR 0x27] @ ''..'' @ [CHR 0x27] @ '', '' @ [CHR 0x27] @ ''~'' @ [CHR 0x27] @ '', absolute paths)'',
      [CHR 0xE2, CHR 0x80, CHR 0xA2] @ '' pwd                      - Print working directory'',
      [CHR 0xE2, CHR 0x80, CHR 0xA2] @ '' touch <filename>         - Create an empty file'',
      [CHR 0xE2, CHR 0x80, CHR 0xA2] @ '' mkdir <dirname>          - Create a directory'',
      [CHR 0xE2, CHR 0x80, CHR 0xA2] @ '' rm <name>               - Remove a file or empty directory'',
      [],
      ''Natural Language:'',
      [CHR 0xE2, CHR 0x80, CHR 0xA2] @ '' Use phrases like:'',
      ''  - '' @ [CHR 0x27] @ ''list files'' @ [CHR 0x27],
      ''  - '' @ [CHR 0x27] @ ''show directory tree'' @ [CHR 0x27],
      ''  - '' @ [CHR 0x27] @ ''go to ~/Documents'' @ [CHR 0x27],
      ''  - '' @ [CHR 0x27] @ ''create file test.py'' @ [CHR 0x27],
      ''  - '' @ [CHR 0x27] @ ''make directory src'' @ [CHR 0x27],
      ''  - '' @ [CHR 0x27] @ ''delete file.txt'' @ [CHR 0x27],
      [],
      ''For AI queries:'',
      [CHR 0xE2, CHR 0x80, CHR 0xA2] @ '' Ask about code ('' @ [CHR 0x27] @ ''explain cli.py'' @ [CHR 0x27] @ ''), request explanations, analysis, or generation.'']"

definition handle_help :: "agent \<Rightarrow> world \<Rightarrow> reply \<times> agent \<times> world" where
  "handle_help st w = ((help_text, True), st, w)"

section \<open>Context assembly\<close>

text \<open>\<open>_get_file_content\<close>. The \<open>error\<close> field of an entry is written by no reachable
  statement of the source, so it is \<open>None\<close> throughout; an empty text counts as absent
  where the source tests truth.\<close>

definition truthy :: "string option \<Rightarrow> bool" where
  "truthy v = (case v of None \<Rightarrow> False | Some t \<Rightarrow> t \<noteq> [])"

definition set_content :: "agent \<Rightarrow> string \<Rightarrow> string option \<Rightarrow> agent" where
  "set_content st filename v =
     st\<lparr>file_cache :=
          (case map_of (file_cache st) filename of
             None \<Rightarrow> file_cache st
           | Some e \<Rightarrow> AList.update filename (e\<lparr>content := v\<rparr>) (file_cache st))\<rparr>"

definition get_file_content :: "agent \<Rightarrow> world \<Rightarrow> string \<Rightarrow> string option \<times> agent" where
  "get_file_content st w filename =
     (case map_of (file_cache st) filename of
        None \<Rightarrow> (None, st)
      | Some e \<Rightarrow>
          if is_dir e \<or> truthy (error e) then (None, st)
          else (case content e of
                  Some c \<Rightarrow> (Some c, st)
                | None \<Rightarrow>
                    let full_path = path_join (current_dir st) filename
                    in if os_path_exists w full_path \<and> os_path_isfile w full_path
                       then (case read_text w full_path of
                               Some txt \<Rightarrow> (Some txt, set_content st filename (Some txt))
                             | None \<Rightarrow> (None, set_content st filename None))
                       else (None, st)))"

text \<open>The file-name pattern \<open>([\w./-]+\.\w+)\<close>.\<close>

definition file_rx :: rx where
  "file_rx = Group (seq [Plus NameCh, Lit ''.'', Plus Word])"

definition cached_file :: "(string \<times> entry) list \<Rightarrow> string \<Rightarrow> bool" where
  "cached_file c f = (case map_of c f of None \<Rightarrow> False | Some e \<Rightarrow> \<not> is_dir e)"

text \<open>One round of the loop of \<open>_find_file_references\<close>, on the list of files found so
  far and the cache.\<close>

definition find_step :: "world \<Rightarrow> string \<Rightarrow> string list \<times> (string \<times> entry) list \<Rightarrow> string
    \<Rightarrow> string list \<times> (string \<times> entry) list" where
  "find_step w cur acc potential_file =
     (let found_files = fst acc; c = snd acc
      in if cached_file c potential_file then (found_files @ [potential_file], c)
         else if os_path_isfile w (path_join cur potential_file)
         then
           let c1 = (if map_of c potential_file = None
                     then AList.update potential_file
                            \<lparr>is_dir = False, content = None, error = None\<rparr> c
                     else c)
           in if cached_file c1 potential_file then (found_files @ [potential_file], c1)
              else (found_files, c1)
         else (found_files, c))"

text \<open>
  \<open>list(set(xs))\<close>. A Python set of strings is iterated in the order of the slots of
  its hash table. That order follows from the hashes of the strings, the size of the table
  and the insertions made, and the code does nothing to fix it; it need not be the order
  of insertion, and it need not be the same in two conversions. The order is therefore a
  parameter of each conversion: \<open>slot\<close> ranks the strings, and strings of equal rank keep
  their order of insertion.
\<close>

definition py_list_of_set :: "(string \<Rightarrow> nat) \<Rightarrow> string list \<Rightarrow> string list" where
  "py_list_of_set slot xs = sort_key slot (rev (remdups (rev xs)))"

text \<open>The ranking that iterates a set in the order of the list \<open>ys\<close>: every order a set
  can have is the order of such a ranking.\<close>

definition slot_of :: "string list \<Rightarrow> string \<Rightarrow> nat" where
  "slot_of ys s = length (takeWhile (\<lambda>y. y \<noteq> s) ys)"

definition found_files :: "agent \<Rightarrow> world \<Rightarrow> string \<Rightarrow> string list" where
  "found_files st w query =
     fst (foldl (find_step w (current_dir st)) ([], file_cache st) (findall file_rx query))"

definition find_file_references :: "(string \<Rightarrow> nat) \<Rightarrow> agent \<Rightarrow> world \<Rightarrow> string \<Rightarrow> string list \<times> agent" where
  "find_file_references slot st w query =
     (let r = foldl (find_step w (current_dir st)) ([], file_cache st) (findall file_rx query)
      in (py_list_of_set slot (fst r), st\<lparr>file_cache := snd r\<rparr>))"

definition files_to_include :: "(string \<Rightarrow> nat) \<Rightarrow> agent \<Rightarrow> world \<Rightarrow> string \<Rightarrow> string list" where
  "files_to_include slot st w query = take 2 (fst (find_file_references slot st w query))"

definition context_items :: "(string \<times> entry) list \<Rightarrow> string list" where
  "context_items c =
     (case map_of c ''.error'' of
        Some e \<Rightarrow>
          [''- Error accessing directory: '' @ (case content e of None \<Rightarrow> ''None'' | Some t \<Rightarrow> t)]
      | None \<Rightarrow>
          if c = [] then [''- (empty)'']
          else map (\<lambda>f. ''- '' @ f
                           @ (case map_of c f of None \<Rightarrow> [] | Some e \<Rightarrow> if is_dir e then ''/'' else []))
                 (filter (\<lambda>f. f \<noteq> ''.error'' \<and> \<not> startswith f ''.'') (sort (map fst c))))"

definition include_step :: "world \<Rightarrow> string list \<times> agent \<Rightarrow> string \<Rightarrow> string list \<times> agent" where
  "include_step w acc file =
     (let r = get_file_content (snd acc) w file
      in if truthy (fst r)
         then
           let text = the (fst r);
               max_len = 1500;
               truncated_content = take max_len text @ (if length text > max_len then ''...'' else [])
           in (fst acc @ [[CHR 0x0A] @ ''--- '' @ file @ '' ---'' @ [CHR 0x0A] @ truncated_content
                            @ [CHR 0x0A] @ ''--- End '' @ file @ '' ---''], snd r)
         else (fst acc @ [[CHR 0x0A] @ ''(Could not read content of '' @ file @ '')''], snd r))"

text \<open>\<open>_get_context\<close>: the model name, the context text and the agent with its cache
  as the assembly leaves it.\<close>

definition get_context :: "(string \<Rightarrow> nat) \<Rightarrow> agent \<Rightarrow> world \<Rightarrow> string \<Rightarrow> string \<times> string \<times> agent" where
  "get_context slot st w query =
     (let model = ''sonar-reasoning-pro'';
          r = find_file_references slot st w query;
          st1 = snd r;
          context_parts =
            [''Current Directory: '' @ current_dir st1,
             ''Available files/dirs in current directory (excluding hidden):'']
            @ context_items (file_cache st1);
          included = take 2 (fst r);
          r2 = (if included \<noteq> []
                then foldl (include_step w)
                       (context_parts @ [[CHR 0x0A] @ ''Relevant File Content:''], st1) included
                else (context_parts, st1))
      in (model, py_join [CHR 0x0A] (fst r2), snd r2))"

section \<open>Command routing\<close>

datatype handler = H_help | H_exit | H_ls | H_cd | H_pwd | H_create_file | H_mkdir | H_rm

definition commands :: "(string \<times> handler) list" where
  "commands =
     [(''help'', H_help), (''exit'', H_exit), (''quit'', H_exit), (''ls'', H_ls), (''tree'', H_ls),
      (''cd'', H_cd), (''pwd'', H_pwd), (''create'', H_create_file), (''touch'', H_create_file),
      (''mkdir'', H_mkdir), (''rm'', H_rm), (''delete'', H_rm), (''remove'', H_rm)]"

definition name_arg :: "rx list" where
  "name_arg = [Plus Space, Group (Plus NameCh), Dollar]"

definition natural_commands :: "(rx \<times> string) list" where
  "natural_commands =
     [(seq [Lit ''list'', Opt (seq [Lit '' file'', Opt (Lit ''s'')]),
            Opt (seq [Lit '' in'', Opt (Lit '' current''), Lit '' directory''])], ''ls''),
      (seq [Lit ''show'', Opt (Lit '' directory''), Lit '' tree''], ''tree''),
      (seq [Lit ''change'', Opt (Lit '' directory''), Lit '' to '', Group LazyAny, Dollar], ''cd''),
      (seq [Lit ''go to '', Group LazyAny, Dollar], ''cd''),
      (seq [Lit ''what is the current directory'', OptLazy (Lit [backslash])], ''pwd''),
      (seq [Lit ''show'', Opt (Lit '' the''), Lit '' current directory''], ''pwd''),
      (seq ([Lit ''create'', Opt (Lit '' a''), Opt (Lit '' new''), Lit '' file'', Opt (Lit '' named'')]
            @ name_arg), ''create''),
      (seq (Lit ''touch'' # name_arg), ''create''),
      (seq ([Lit ''create'', Opt (Lit '' a''), Opt (Lit '' new''), Lit '' directory'',
             Opt (Lit '' named'')] @ name_arg), ''mkdir''),
      (seq (Lit ''make directory'' # name_arg), ''mkdir''),
      (seq (Lit ''mkdir'' # name_arg), ''mkdir''),
      (seq (Lit ''delete'' # name_arg), ''rm''),
      (seq (Lit ''remove'' # name_arg), ''rm''),
      (seq (Lit ''rm'' # name_arg), ''rm'')]"

datatype parsed_command = LocalCommand string handler "string option" | RemoteQuery string

datatype py_exception = IndexError | TypeError

text \<open>Step 2 of \<open>process_query\<close>: the first pattern that matches the whole input.\<close>

fun natural_match :: "(rx \<times> string) list \<Rightarrow> string \<Rightarrow> parsed_command option" where
  "natural_match [] query = None"
| "natural_match (pc # rest) query =
     (case fullmatch (fst pc) query of
        None \<Rightarrow> natural_match rest query
      | Some g \<Rightarrow>
          (case map_of commands (snd pc) of
             None \<Rightarrow> natural_match rest query
           | Some h \<Rightarrow>
               if snd pc \<in> set [''cd'', ''create'', ''mkdir'', ''rm'']
               then Some (LocalCommand (snd pc) h
                            (Some (case g of Some t \<Rightarrow> py_strip t | None \<Rightarrow> [])))
               else Some (LocalCommand (snd pc) h None)))"

text \<open>Steps 1 to 3 of \<open>process_query\<close> up to the choice of the handler and its
  argument. \<open>cmd_parts[0]\<close> raises \<open>IndexError\<close> when the input has no token.\<close>

definition classify :: "string \<Rightarrow> py_exception + parsed_command" where
  "classify query =
     (let cmd_parts = py_split1 query
      in case cmd_parts of
           [] \<Rightarrow> Inl IndexError
         | tok # args \<Rightarrow>
             let exact_cmd = py_lower tok
             in (case map_of commands exact_cmd of
                   Some h \<Rightarrow>
                     if exact_cmd \<in> set [''cd'', ''create'', ''touch'', ''mkdir'', ''rm'', ''delete'', ''remove'']
                     then Inr (LocalCommand exact_cmd h
                                 (Some (case args of [] \<Rightarrow> [] | a # as \<Rightarrow> py_strip a)))
                     else Inr (LocalCommand exact_cmd h None)
                 | None \<Rightarrow>
                     (case natural_match natural_commands query of
                        Some c \<Rightarrow> Inr c
                      | None \<Rightarrow> Inr (RemoteQuery query))))"

text \<open>Calling a handler with or without the argument; a call of the wrong arity is
  Python's \<open>TypeError\<close>.\<close>

fun run_handler :: "handler \<Rightarrow> string option \<Rightarrow> agent \<Rightarrow> world \<Rightarrow> py_exception + reply \<times> agent \<times> world" where
  "run_handler H_help None st w = Inr (handle_help st w)"
| "run_handler H_exit None st w = Inr (handle_exit st w)"
| "run_handler H_ls None st w = Inr (handle_ls st w)"
| "run_handler H_pwd None st w = Inr (handle_pwd st w)"
| "run_handler H_cd (Some a) st w = Inr (handle_cd st w a)"
| "run_handler H_create_file (Some a) st w = Inr (handle_create_file st w a)"
| "run_handler H_mkdir (Some a) st w = Inr (handle_mkdir st w a)"
| "run_handler H_rm (Some a) st w = Inr (handle_rm st w a)"
| "run_handler h a st w = Inl TypeError"

section \<open>The remote query\<close>

record payload =
  model :: string
  messages :: "(string \<times> string) list"

text \<open>What the call of the endpoint comes to: the contents of the choices of a
  successful response, or the exception that \<open>post\<close>, \<open>raise_for_status\<close> or the
  reading of the response raises.\<close>

datatype api_outcome =
    Choices "string list"
  | HTTPStatusError nat string
  | TimeoutException
  | RequestError string
  | OtherException string string

definition api_reply :: "api_outcome \<Rightarrow> reply" where
  "api_reply out =
     (case out of
        Choices cs \<Rightarrow>
          (case cs of
             c # others \<Rightarrow> (c, False)
           | [] \<Rightarrow> (''No response received from the model.'', False))
      | HTTPStatusError code body \<Rightarrow> (''API error: '' @ str_nat code @ '' - '' @ body, True)
      | TimeoutException \<Rightarrow>
          (''Request timed out. The Perplexity API might be slow or unreachable.'', True)
      | RequestError msg \<Rightarrow>
          (''Network error: Could not connect to Perplexity API. '' @ msg, True)
      | OtherException msg trace \<Rightarrow>
          (''Unexpected error during API call: '' @ msg @ [CHR 0x0A] @ trace, True))"

definition remote_payload :: "(string \<Rightarrow> nat) \<Rightarrow> agent \<Rightarrow> world \<Rightarrow> string \<Rightarrow> payload" where
  "remote_payload slot st w query =
     (let mc = get_context slot (st\<lparr>is_processing_api := True\<rparr>) w query
      in \<lparr>model = fst mc, messages = [(''system'', fst (snd mc)), (''user'', query)]\<rparr>)"

text \<open>\<open>process_query\<close>. \<open>slot\<close> is the set order of the run and \<open>api\<close> the
  behaviour of the endpoint on a payload.\<close>

definition process_query :: "(string \<Rightarrow> nat) \<Rightarrow> (payload \<Rightarrow> api_outcome) \<Rightarrow> agent \<Rightarrow> world \<Rightarrow> string
    \<Rightarrow> py_exception + reply \<times> agent \<times> world" where
  "process_query slot api st w query =
     (case classify query of
        Inl e \<Rightarrow> Inl e
      | Inr (LocalCommand key h a) \<Rightarrow> run_handler h a st w
      | Inr (RemoteQuery text) \<Rightarrow>
          (let st1 = st\<lparr>is_processing_api := True\<rparr>;
               mc = get_context slot st1 w text;
               request = \<lparr>model = fst mc, messages = [(''system'', fst (snd mc)), (''user'', text)]\<rparr>
           in Inr (api_reply (api request), (snd (snd mc))\<lparr>is_processing_api := False\<rparr>, w)))"

text \<open>The replies of the name-safety guard of the create, mkdir and remove handlers.\<close>

definition name_rejection :: "reply \<Rightarrow> bool" where
  "name_rejection r = (startswith (fst r) ''Invalid characters or path components in '' \<and> snd r)"

section \<open>A sample world\<close>

text \<open>A small home directory, used where a statement is evaluated on a concrete input.\<close>

definition ex_world :: world where
  "ex_world =
     \<lparr>tree = [([], Dir True True True),
              ([''home''], Dir True True True),
              ([''home'', ''u''], Dir True True True),
              ([''home'', ''u'', ''a.py''], File (Some ''print(1)'')),
              ([''home'', ''u'', ''b.py''], File (Some [])),
              ([''home'', ''u'', ''c.py''], File None),
              ([''home'', ''u'', ''sub''], Dir True True True),
              ([''home'', ''u'', ''sub'', ''x.py''], File (Some ''x = 1'')),
              ([''home'', ''u'', ''.git''], Dir True True True),
              ([''home'', ''u'', ''locked''], Dir False True True)],
       cwd = [''home'', ''u''], home = ''/home/u'', chdir_refused = []\<rparr>"

definition ex_world_deep :: world where
  "ex_world_deep =
     \<lparr>tree = [([], Dir True True True),
              ([''r''], Dir True True True),
              ([''r'', ''a''], Dir True True True),
              ([''r'', ''a'', ''b''], Dir True True True),
              ([''r'', ''a'', ''b'', ''c''], Dir True True True),
              ([''r'', ''a'', ''b'', ''c'', ''d''], Dir True True True),
              ([''r'', ''a'', ''b'', ''c'', ''d'', ''e''], File (Some []))],
       cwd = [''r''], home = ''/r'', chdir_refused = []\<rparr>"

definition ex_agent :: agent where
  "ex_agent =
     update_file_cache \<lparr>current_dir = ''/home/u'', file_cache = [], is_processing_api = False\<rparr> ex_world"

definition api_timeout :: "payload \<Rightarrow> api_outcome" where
  "api_timeout p = TimeoutException"

text \<open>A set order that puts \<open>c.py\<close> before every other string.\<close>

definition slot_c :: "string \<Rightarrow> nat" where
  "slot_c s = (if s = ''c.py'' then 0 else 1)"

definition slot0 :: "string \<Rightarrow> nat" where
  "slot0 s = 0"

section \<open>Navigation scenarios\<close>

text \<open>The three tests that \<open>_handle_cd\<close> makes before it changes the directory.\<close>

definition cd_passes :: "agent \<Rightarrow> world \<Rightarrow> string \<Rightarrow> bool" where
  "cd_passes st w path =
     (path \<noteq> [] \<and> os_path_exists w (cd_target st w path) \<and> os_path_isdir w (cd_target st w path)
      \<and> os_access_rx w (cd_target st w path))"

text \<open>A name of a directory entry, and the normalised absolute path made of such names.\<close>

definition valid_name :: "string \<Rightarrow> bool" where
  "valid_name n = (n \<noteq> [] \<and> CHR ''/'' \<notin> set n \<and> n \<noteq> ''.'' \<and> n \<noteq> ''..'')"

definition abs_path :: "string list \<Rightarrow> string" where
  "abs_path names = ''/'' @ py_join ''/'' names"

text \<open>\<open>cd ..\<close> followed by \<open>cd c\<close>: the agent after both commands.\<close>

definition up_and_back :: "agent \<Rightarrow> world \<Rightarrow> string \<Rightarrow> agent" where
  "up_and_back st w c =
     (let r = handle_cd st w ''..'' in fst (snd (handle_cd (fst (snd r)) (snd (snd r)) c)))"

definition ex_world_sub_refused :: world where
  "ex_world_sub_refused = ex_world\<lparr>chdir_refused := [''/home/u/sub'']\<rparr>"

definition ex_world_all_refused :: world where
  "ex_world_all_refused = ex_world\<lparr>chdir_refused := [''/home/u/sub'', ''/home/u'']\<rparr>"

definition ex_world_tilde :: world where
  "ex_world_tilde = ex_world\<lparr>tree := tree ex_world @ [([''home'', ''u'', ''~''], Dir True True True)]\<rparr>"

section \<open>Create and remove\<close>







section \<open>The snapshot and the directory\<close>






section \<open>Name-safety rejection\<close>

text \<open>
  Claim C5. \<open>createFile("../x")\<close>, \<open>createFile("a/b")\<close> and \<open>remove("..")\<close> are all
  answered by the name-safety guard (a reply that starts with
  \<open>Invalid characters or path components in\<close>), in every state and on every file
  system, and leave the file system and the snapshot exactly as they were.
\<close>

theorem name_safety_rejection:
  "handle_create_file st w ''../x''
     = ((''Invalid characters or path components in filename: ../x'', True), st, w)
   \<and> handle_create_file st w ''a/b''
     = ((''Invalid characters or path components in filename: a/b'', True), st, w)
   \<and> handle_rm st w ''..''
     = ((''Invalid characters or path components in name: ... Cannot delete relative paths.'', True), st, w)
   \<and> name_rejection (fst (handle_create_file st w ''../x''))
   \<and> name_rejection (fst (handle_create_file st w ''a/b''))
   \<and> name_rejection (fst (handle_rm st w ''..''))"
  by (simp add: handle_create_file_def handle_rm_def name_rejection_def startswith_def)

section \<open>Zero-argument commands\<close>

text \<open>The six commands without an argument, typed bare.\<close>

lemma classify_bare:
  "classify ''ls'' = Inr (LocalCommand ''ls'' H_ls None)"
  "classify ''tree'' = Inr (LocalCommand ''tree'' H_ls None)"
  "classify ''pwd'' = Inr (LocalCommand ''pwd'' H_pwd None)"
  "classify ''help'' = Inr (LocalCommand ''help'' H_help None)"
  "classify ''exit'' = Inr (LocalCommand ''exit'' H_exit None)"
  "classify ''quit'' = Inr (LocalCommand ''quit'' H_exit None)"
  by code_simp+

text \<open>
  Claim C10. When the first whitespace-delimited token of the input is, without regard
  to case, one of \<open>ls\<close>, \<open>tree\<close>, \<open>pwd\<close>, \<open>help\<close>, \<open>exit\<close>, \<open>quit\<close>, the rest of
  the line is ignored: \<open>process_query\<close> answers exactly as for the bare command, by
  calling the handler of that command without an argument.
\<close>

theorem zero_arg_ignores_rest:
  assumes "py_split1 q = tok # rest"
    and "py_lower tok \<in> set [''ls'', ''tree'', ''pwd'', ''help'', ''exit'', ''quit'']"
  shows "process_query slot api st w q = process_query slot api st w (py_lower tok)
       \<and> process_query slot api st w q =
           Inr (if py_lower tok = ''ls'' \<or> py_lower tok = ''tree'' then handle_ls st w
                else if py_lower tok = ''pwd'' then handle_pwd st w
                else if py_lower tok = ''help'' then handle_help st w
                else handle_exit st w)"
proof -
  have full: "classify q = Inr (LocalCommand (py_lower tok) (the (map_of commands (py_lower tok))) None)"
    using assms by (auto simp: classify_def commands_def)
  show ?thesis
    using assms(2) full
    by (auto simp: process_query_def commands_def classify_bare)
qed

theorem zero_arg_ignores_rest_witness:
  "py_split1 ''LS /tmp'' = [''LS'', ''/tmp'']
   \<and> py_lower ''LS'' = ''ls''
   \<and> process_query slot0 api_timeout ex_agent ex_world ''LS /tmp''
       = process_query slot0 api_timeout ex_agent ex_world ''ls''
   \<and> process_query slot0 api_timeout ex_agent ex_world ''LS /tmp''
       = Inr (handle_ls ex_agent ex_world)"
proof -
  have s: "py_split1 ''LS /tmp'' = [''LS'', ''/tmp'']"
    by (simp add: py_split1_def is_space_def)
  have l: "py_lower ''LS'' = ''ls''"
    by code_simp
  have m: "py_lower ''LS'' \<in> set [''ls'', ''tree'', ''pwd'', ''help'', ''exit'', ''quit'']"
    by (simp add: l)
  have a: "process_query slot0 api_timeout ex_agent ex_world ''LS /tmp''
             = process_query slot0 api_timeout ex_agent ex_world ''ls''"
    using zero_arg_ignores_rest [OF s m, THEN conjunct1, of slot0 api_timeout ex_agent ex_world]
    by (simp only: l)
  have b: "process_query slot0 api_timeout ex_agent ex_world ''LS /tmp''
             = Inr (handle_ls ex_agent ex_world)"
    using zero_arg_ignores_rest [OF s m, THEN conjunct2, of slot0 api_timeout ex_agent ex_world]
    by (simp add: l)
  show ?thesis
    using s l a b by blast
qed

section \<open>Failures of the remote call\<close>

lemma classify_quantum:
  "classify ''please tell me about quantum computing''
     = Inr (RemoteQuery ''please tell me about quantum computing'')"
  by code_simp

lemma process_query_remote:
  assumes "classify q = Inr (RemoteQuery q)"
  shows "map_sum id fst (process_query slot api st w q)
           = Inr (api_reply (api (remote_payload slot st w q)))"
  using assms by (simp add: process_query_def remote_payload_def Let_def)

text \<open>The flag of the reply of a remote query is false exactly when the endpoint
  answered; every exception of the call gives a message with the flag set.\<close>

lemma api_reply_flag: "snd (api_reply out) = (\<forall>cs. out \<noteq> Choices cs)"
  by (cases out) (auto simp: api_reply_def split: list.splits)

text \<open>
  Claim C1, as the code has it. For a remote query whose call of the endpoint times out,
  \<open>process_query\<close> raises nothing and returns the time-out message as text, with the
  second component of the pair set to \<open>True\<close> (as for every other failure of the
  call); the file system is left as it was.
\<close>

theorem timeout_reply:
  assumes "classify q = Inr (RemoteQuery q)"
    and "api (remote_payload slot st w q) = TimeoutException"
  shows "process_query slot api st w q =
           Inr ((''Request timed out. The Perplexity API might be slow or unreachable.'', True),
                (snd (snd (get_context slot (st\<lparr>is_processing_api := True\<rparr>) w q)))
                  \<lparr>is_processing_api := False\<rparr>,
                w)"
  using assms by (simp add: process_query_def remote_payload_def Let_def api_reply_def)

theorem timeout_reply_witness:
  "classify ''please tell me about quantum computing''
     = Inr (RemoteQuery ''please tell me about quantum computing'')
   \<and> api_timeout (remote_payload slot0 ex_agent ex_world ''please tell me about quantum computing'')
     = TimeoutException
   \<and> process_query slot0 api_timeout ex_agent ex_world ''please tell me about quantum computing'' =
       Inr ((''Request timed out. The Perplexity API might be slow or unreachable.'', True),
            (snd (snd (get_context slot0 (ex_agent\<lparr>is_processing_api := True\<rparr>) ex_world
                         ''please tell me about quantum computing'')))
              \<lparr>is_processing_api := False\<rparr>,
            ex_world)"
proof -
  have c: "classify ''please tell me about quantum computing''
             = Inr (RemoteQuery ''please tell me about quantum computing'')"
    by (rule classify_quantum)
  have t: "api_timeout (remote_payload slot0 ex_agent ex_world ''please tell me about quantum computing'')
             = TimeoutException"
    by (simp add: api_timeout_def)
  show ?thesis
    using c t
      timeout_reply [where q = "''please tell me about quantum computing''" and api = api_timeout
        and slot = slot0 and st = ex_agent and w = ex_world]
    by simp
qed

text \<open>The claim as stated fails: on a time-out the second component of the pair is
  \<open>True\<close>.\<close>

theorem timeout_flag_is_set:
  "map_sum id fst
     (process_query slot0 api_timeout ex_agent ex_world ''please tell me about quantum computing'')
     = Inr (''Request timed out. The Perplexity API might be slow or unreachable.'', True)"
  using process_query_remote [OF classify_quantum, of slot0 api_timeout ex_agent ex_world]
  by (simp add: api_timeout_def api_reply_def)

section \<open>Classification\<close>

text \<open>\<open>ls\<close> and \<open>list files\<close> are classified to the same command key, and an input
  that is no command in either form becomes a remote query with its text unchanged.\<close>

lemma classify_ls_list_files:
  "classify ''ls'' = Inr (LocalCommand ''ls'' H_ls None)
   \<and> classify ''list files'' = Inr (LocalCommand ''ls'' H_ls None)"
  by code_simp

lemma classify_fallback:
  assumes "py_split1 q = tok # rest"
    and "map_of commands (py_lower tok) = None"
    and "natural_match natural_commands q = None"
  shows "classify q = Inr (RemoteQuery q)"
  using assms by (simp add: classify_def)

text \<open>
  Claim C7 says that classification never fails. On an input without any token (the
  empty line, a line of spaces) \<open>cmd_parts\<close> is empty and \<open>cmd_parts[0]\<close> raises
  \<open>IndexError\<close>, in every state.
\<close>

theorem classification_raises_on_blank:
  "classify '' '' = Inl IndexError
   \<and> classify [] = Inl IndexError
   \<and> process_query slot api st w '' '' = Inl IndexError
   \<and> process_query slot api st w [] = Inl IndexError"
  by (simp add: classify_def process_query_def py_split1_def is_space_def)

section \<open>Navigation\<close>

lemma current_dir_update_file_cache [simp]:
  "current_dir (update_file_cache st w) = current_dir st"
  by (simp add: update_file_cache_def)

text \<open>
  Claim C4, as the code has it. When one of the tests of \<open>navigate\<close> fails (empty
  argument, not found, not a directory, permission denied) the agent and the file
  system are returned unchanged, with a message. When the tests pass and \<open>chdir\<close>
  succeeds, the reply is empty, \<open>current_dir\<close> is the resolved path and the entries
  are refreshed in full. When \<open>chdir\<close> raises, \<open>current_dir\<close> and the entries are
  as before provided the change back to the original directory succeeds; when that
  raises too, \<open>current_dir\<close> stays at the resolved path.
\<close>

theorem navigate_outcome:
  "(\<not> cd_passes st w path
      \<longrightarrow> snd (handle_cd st w path) = (st, w) \<and> fst (fst (handle_cd st w path)) \<noteq> [])
   \<and> (cd_passes st w path \<and> os_chdir w (cd_target st w path) = Inr wa
      \<longrightarrow> handle_cd st w path
            = (([], True), update_file_cache (st\<lparr>current_dir := cd_target st w path\<rparr>) wa, wa)
          \<and> current_dir (fst (snd (handle_cd st w path))) = cd_target st w path)
   \<and> (cd_passes st w path \<and> os_chdir w (cd_target st w path) = Inl ea
        \<and> os_chdir w (current_dir st) = Inr wb
      \<longrightarrow> fst (fst (handle_cd st w path)) \<noteq> []
          \<and> current_dir (fst (snd (handle_cd st w path))) = current_dir st
          \<and> file_cache (fst (snd (handle_cd st w path))) = file_cache st)
   \<and> (cd_passes st w path \<and> os_chdir w (cd_target st w path) = Inl ea
        \<and> os_chdir w (current_dir st) = Inl eb
      \<longrightarrow> fst (fst (handle_cd st w path)) \<noteq> []
          \<and> current_dir (fst (snd (handle_cd st w path))) = cd_target st w path)"
  by (auto simp: handle_cd_def cd_passes_def Let_def)

theorem navigate_outcome_witness:
  "(\<not> cd_passes ex_agent ex_world ''nope''
      \<and> snd (handle_cd ex_agent ex_world ''nope'') = (ex_agent, ex_world))
   \<and> (cd_passes ex_agent ex_world ''sub''
      \<and> os_chdir ex_world (cd_target ex_agent ex_world ''sub'')
           = Inr (ex_world\<lparr>cwd := [''home'', ''u'', ''sub'']\<rparr>)
      \<and> handle_cd ex_agent ex_world ''sub''
           = (([], True),
              update_file_cache (ex_agent\<lparr>current_dir := cd_target ex_agent ex_world ''sub''\<rparr>)
                (ex_world\<lparr>cwd := [''home'', ''u'', ''sub'']\<rparr>),
              ex_world\<lparr>cwd := [''home'', ''u'', ''sub'']\<rparr>))
   \<and> (cd_passes ex_agent ex_world_sub_refused ''sub''
      \<and> os_chdir ex_world_sub_refused (cd_target ex_agent ex_world_sub_refused ''sub'') = Inl EPERM
      \<and> os_chdir ex_world_sub_refused (current_dir ex_agent)
           = Inr (ex_world_sub_refused\<lparr>cwd := [''home'', ''u'']\<rparr>)
      \<and> current_dir (fst (snd (handle_cd ex_agent ex_world_sub_refused ''sub''))) = current_dir ex_agent)
   \<and> (cd_passes ex_agent ex_world_all_refused ''sub''
      \<and> os_chdir ex_world_all_refused (cd_target ex_agent ex_world_all_refused ''sub'') = Inl EPERM
      \<and> os_chdir ex_world_all_refused (current_dir ex_agent) = Inl EPERM
      \<and> current_dir (fst (snd (handle_cd ex_agent ex_world_all_refused ''sub'')))
           = cd_target ex_agent ex_world_all_refused ''sub'')"
proof -
  have a1: "\<not> cd_passes ex_agent ex_world ''nope''"
    by code_simp
  have a2: "snd (handle_cd ex_agent ex_world ''nope'') = (ex_agent, ex_world)"
    using a1 navigate_outcome [THEN conjunct1, of ex_agent ex_world "''nope''"] by simp
  have b1: "cd_passes ex_agent ex_world ''sub''"
    by code_simp
  have b2: "os_chdir ex_world (cd_target ex_agent ex_world ''sub'')
              = Inr (ex_world\<lparr>cwd := [''home'', ''u'', ''sub'']\<rparr>)"
    by code_simp
  have b3: "handle_cd ex_agent ex_world ''sub''
           = (([], True),
              update_file_cache (ex_agent\<lparr>current_dir := cd_target ex_agent ex_world ''sub''\<rparr>)
                (ex_world\<lparr>cwd := [''home'', ''u'', ''sub'']\<rparr>),
              ex_world\<lparr>cwd := [''home'', ''u'', ''sub'']\<rparr>)"
    using b1 b2
      navigate_outcome [where st = ex_agent and w = ex_world and path = "''sub''"
          and wa = "ex_world\<lparr>cwd := [''home'', ''u'', ''sub'']\<rparr>",
        THEN conjunct2, THEN conjunct1]
    by simp
  have c1: "cd_passes ex_agent ex_world_sub_refused ''sub''"
    by code_simp
  have c2: "os_chdir ex_world_sub_refused (cd_target ex_agent ex_world_sub_refused ''sub'') = Inl EPERM"
    by code_simp
  have c3: "os_chdir ex_world_sub_refused (current_dir ex_agent)
              = Inr (ex_world_sub_refused\<lparr>cwd := [''home'', ''u'']\<rparr>)"
    by code_simp
  have c4: "current_dir (fst (snd (handle_cd ex_agent ex_world_sub_refused ''sub''))) = current_dir ex_agent"
    using c1 c2 c3
      navigate_outcome [where st = ex_agent and w = ex_world_sub_refused and path = "''sub''" and ea = EPERM
          and wb = "ex_world_sub_refused\<lparr>cwd := [''home'', ''u'']\<rparr>",
        THEN conjunct2, THEN conjunct2, THEN conjunct1]
    by simp
  have d1: "cd_passes ex_agent ex_world_all_refused ''sub''"
    by code_simp
  have d2: "os_chdir ex_world_all_refused (cd_target ex_agent ex_world_all_refused ''sub'') = Inl EPERM"
    by code_simp
  have d3: "os_chdir ex_world_all_refused (current_dir ex_agent) = Inl EPERM"
    by code_simp
  have d4: "current_dir (fst (snd (handle_cd ex_agent ex_world_all_refused ''sub'')))
              = cd_target ex_agent ex_world_all_refused ''sub''"
    using d1 d2 d3
      navigate_outcome [where st = ex_agent and w = ex_world_all_refused and path = "''sub''" and ea = EPERM
          and eb = EPERM,
        THEN conjunct2, THEN conjunct2, THEN conjunct2]
    by simp
  show ?thesis
    using a1 a2 b1 b2 b3 c1 c2 c3 c4 d1 d2 d3 d4 by blast
qed

text \<open>The claim as stated fails: where the operating system refuses \<open>chdir\<close> both to the
  new directory and back to the original one, \<open>navigate\<close> fails with a message and
  leaves \<open>current_dir\<close> at the new path.\<close>

theorem navigate_double_fault:
  "current_dir ex_agent = ''/home/u''
   \<and> fst (handle_cd ex_agent ex_world_all_refused ''sub'')
       = (''Error changing directory: [Errno 1] Operation not permitted: ''
            @ [CHR 0x27] @ ''/home/u/sub'' @ [CHR 0x27], True)
   \<and> current_dir (fst (snd (handle_cd ex_agent ex_world_all_refused ''sub''))) = ''/home/u/sub''"
  by code_simp

section \<open>Paths made of names\<close>

lemma split_on_no_sep: "c \<notin> set s \<Longrightarrow> split_on c s = [s]"
  by (induction s) auto

lemma split_on_append: "c \<notin> set a \<Longrightarrow> split_on c (a @ c # b) = a # split_on c b"
  by (induction a) auto

lemma split_on_join:
  "names \<noteq> [] \<Longrightarrow> \<forall>n\<in>set names. CHR ''/'' \<notin> set n \<Longrightarrow> split_on (CHR ''/'') (py_join ''/'' names) = names"
proof (induction "''/''" names rule: py_join.induct)
  case 1
  then show ?case by simp
next
  case (2 x)
  then show ?case by (simp add: split_on_no_sep)
next
  case (3 x y ys)
  then show ?case using split_on_append [of "CHR ''/''" x "py_join ''/'' (y # ys)"] by simp
qed

lemma py_join_snoc:
  "py_join sep (ns @ [n]) = (if ns = [] then n else py_join sep ns @ sep @ n)"
  by (induction sep ns rule: py_join.induct) auto

lemma abs_path_snoc:
  "abs_path (ns @ [n]) = (if ns = [] then ''/'' @ n else abs_path ns @ ''/'' @ n)"
  by (simp add: abs_path_def py_join_snoc)

lemma foldl_norm_step:
  "\<forall>n\<in>set names. valid_name n \<Longrightarrow> foldl (norm_step b) acc names = acc @ names"
  by (induction names arbitrary: acc) (auto simp: norm_step_def valid_name_def)

lemma py_join_hd:
  "names \<noteq> [] \<Longrightarrow> \<forall>n\<in>set names. valid_name n \<Longrightarrow> \<exists>c cs. py_join ''/'' names = c # cs \<and> c \<noteq> CHR ''/''"
proof (induction "''/''" names rule: py_join.induct)
  case 1
  then show ?case by simp
next
  case (2 x)
  then show ?case by (cases x) (auto simp: valid_name_def)
next
  case (3 x y ys)
  then show ?case by (cases x) (auto simp: valid_name_def)
qed

lemma normpath_abs_path:
  assumes "\<forall>n\<in>set names. valid_name n"
  shows "normpath (abs_path names) = abs_path names"
proof (cases "names = []")
  case True
  then show ?thesis
    by (simp add: abs_path_def normpath_def startswith_def norm_step_def)
next
  case False
  obtain c cs where j: "py_join ''/'' names = c # cs" and c: "c \<noteq> CHR ''/''"
    using py_join_hd [OF False assms] by blast
  have sp: "split_on (CHR ''/'') (abs_path names) = [] # names"
    using split_on_join [OF False] assms by (simp add: abs_path_def valid_name_def)
  have fl: "foldl (norm_step True) [] ([] # names) = names"
    using foldl_norm_step [OF assms, of True "[]"] by (simp add: norm_step_def)
  have st: "startswith (abs_path names) ''/''" "\<not> startswith (abs_path names) ''//''"
    using j c by (auto simp: abs_path_def startswith_def)
  show ?thesis
    using st sp fl by (simp add: normpath_def Let_def) (simp add: abs_path_def)
qed

lemma abs_path_last:
  assumes "ns \<noteq> []" "\<forall>n\<in>set ns. valid_name n"
  shows "abs_path ns \<noteq> [] \<and> last (abs_path ns) \<noteq> CHR ''/''"
proof -
  obtain ms m where e: "ns = ms @ [m]" using assms(1) by (metis rev_exhaust)
  have m: "m \<noteq> []" "CHR ''/'' \<notin> set m" using assms(2) e by (auto simp: valid_name_def)
  then have "last m \<noteq> CHR ''/''" by (metis last_in_set)
  then show ?thesis using m e by (auto simp: abs_path_snoc)
qed

lemma split_tail:
  assumes "CHR ''/'' \<notin> set n"
  shows "takeWhile (\<lambda>c. c \<noteq> CHR ''/'') (rev (q @ ''/'' @ n)) = rev n"
    and "dropWhile (\<lambda>c. c \<noteq> CHR ''/'') (rev (q @ ''/'' @ n)) = CHR ''/'' # rev q"
proof -
  have r: "rev (q @ ''/'' @ n) = rev n @ CHR ''/'' # rev q" by simp
  have n: "\<And>x. x \<in> set (rev n) \<Longrightarrow> x \<noteq> CHR ''/''" using assms by auto
  show "takeWhile (\<lambda>c. c \<noteq> CHR ''/'') (rev (q @ ''/'' @ n)) = rev n"
    unfolding r using n by (subst takeWhile_append2) auto
  show "dropWhile (\<lambda>c. c \<noteq> CHR ''/'') (rev (q @ ''/'' @ n)) = CHR ''/'' # rev q"
    unfolding r using n by (subst dropWhile_append2) auto
qed

lemma path_split_abs_path:
  assumes "\<forall>n\<in>set ns. valid_name n" "valid_name n"
  shows "path_split (abs_path (ns @ [n])) = (abs_path ns, n)"
proof -
  have n: "CHR ''/'' \<notin> set n" using assms(2) by (simp add: valid_name_def)
  show ?thesis
  proof (cases "ns = []")
    case True
    have p: "abs_path (ns @ [n]) = [] @ ''/'' @ n" using True by (simp add: abs_path_def)
    show ?thesis
      unfolding path_split_def p split_tail [OF n] using True by (simp add: abs_path_def)
  next
    case False
    have p: "abs_path (ns @ [n]) = abs_path ns @ ''/'' @ n" using False by (simp add: abs_path_snoc)
    have l: "abs_path ns \<noteq> []" "last (abs_path ns) \<noteq> CHR ''/''"
      using abs_path_last [OF False assms(1)] by auto
    then have "hd (rev (abs_path ns)) \<noteq> CHR ''/''" "rev (abs_path ns) \<noteq> []"
      by (auto simp: hd_rev)
    then have rs: "rstrip_sep (abs_path ns @ ''/'') = abs_path ns"
      by (cases "rev (abs_path ns)") (auto simp: rstrip_sep_def)
    have ne: "abs_path ns @ ''/'' \<noteq> replicate (length (abs_path ns @ ''/'')) (CHR ''/'')"
    proof
      assume a: "abs_path ns @ ''/'' = replicate (length (abs_path ns @ ''/'')) (CHR ''/'')"
      have "last (abs_path ns) \<in> set (abs_path ns @ ''/'')" using l by simp
      then have "last (abs_path ns) \<in> set (replicate (length (abs_path ns @ ''/'')) (CHR ''/''))"
        using a by metis
      then show False using l by simp
    qed
    have h: "rev (CHR ''/'' # rev (abs_path ns)) = abs_path ns @ ''/''" by simp
    show ?thesis
      unfolding path_split_def p split_tail [OF n] Let_def h using rs ne by simp
  qed
qed

lemma path_join_abs_path:
  assumes "\<forall>n\<in>set ns. valid_name n" "valid_name n"
  shows "path_join (abs_path ns) n = abs_path (ns @ [n])"
proof -
  have s: "\<not> startswith n ''/''" using assms(2) by (cases n) (auto simp: valid_name_def startswith_def)
  show ?thesis
  proof (cases "ns = []")
    case True
    then show ?thesis using s by (simp add: path_join_def abs_path_def)
  next
    case False
    then show ?thesis using s abs_path_last [OF False assms(1)] by (simp add: path_join_def abs_path_snoc)
  qed
qed


section \<open>To the parent and back\<close>

lemma isabs_abs_path: "isabs (abs_path names)"
  by (simp add: isabs_def abs_path_def startswith_def)

lemma lstat_cwd: "isabs p \<Longrightarrow> os_lstat (w\<lparr>cwd := c\<rparr>) p = os_lstat w p"
  by (simp add: os_lstat_def locate_def split: sum.splits)

lemma isdir_exists: "os_path_isdir w p \<Longrightarrow> os_path_exists w p"
  by (auto simp: os_path_isdir_def os_path_exists_def split: sum.splits node.splits)

lemma chdir_succeeds:
  assumes "os_path_isdir w p" "os_access_rx w p" "p \<notin> set (chdir_refused w)"
  shows "\<exists>cp. os_chdir w p = Inr (w\<lparr>cwd := cp\<rparr>)"
  using assms
  by (auto simp: os_path_isdir_def os_access_rx_def os_chdir_def os_lstat_def
           split: sum.splits node.splits option.splits)

lemma handle_cd_success:
  assumes "path \<noteq> []" "os_path_isdir w (cd_target st w path)" "os_access_rx w (cd_target st w path)"
    and "cd_target st w path \<notin> set (chdir_refused w)"
  shows "\<exists>cp. handle_cd st w path
           = (([], True), update_file_cache (st\<lparr>current_dir := cd_target st w path\<rparr>) (w\<lparr>cwd := cp\<rparr>),
              w\<lparr>cwd := cp\<rparr>)"
proof -
  obtain cp where "os_chdir w (cd_target st w path) = Inr (w\<lparr>cwd := cp\<rparr>)"
    using chdir_succeeds [OF assms(2,3,4)] by blast
  then show ?thesis
    using assms isdir_exists [OF assms(2)] by (auto simp: handle_cd_def Let_def)
qed

text \<open>
  Claim C9, as the code has it. Let \<open>current_dir\<close> be the normalised absolute path of
  a directory other than the root, let that directory and its parent both be readable
  and searchable directories, let the last component be neither \<open>~\<close> nor \<open>$HOME\<close>,
  and let the operating system refuse no \<open>chdir\<close>. Then \<open>navigate("..")\<close> followed
  by \<open>navigate\<close> of the last component brings \<open>current_dir\<close> back to its value.
\<close>

theorem parent_and_back:
  assumes names: "names \<noteq> []" "\<forall>n\<in>set names. valid_name n"
    and tok: "last names \<noteq> ''~''" "last names \<noteq> ''$HOME''"
    and cur: "current_dir st = abs_path names"
    and par: "os_path_isdir w (abs_path (butlast names))" "os_access_rx w (abs_path (butlast names))"
    and own: "os_path_isdir w (abs_path names)" "os_access_rx w (abs_path names)"
    and ok: "chdir_refused w = []"
  shows "current_dir (up_and_back st w (last names)) = current_dir st"
proof -
  have ns: "names = butlast names @ [last names]" using names(1) by simp
  have vb: "\<forall>n\<in>set (butlast names). valid_name n" using names(2) by (meson in_set_butlastD)
  have vl: "valid_name (last names)" using names by simp
  have ps: "path_split (abs_path names) = (abs_path (butlast names), last names)"
    using path_split_abs_path [OF vb vl] ns by simp
  have t1: "cd_target st w ''..'' = abs_path (butlast names)"
    using ps by (simp add: cd_target_def cur dirname_def)
  obtain cp where r1: "handle_cd st w ''..''
      = (([], True), update_file_cache (st\<lparr>current_dir := abs_path (butlast names)\<rparr>) (w\<lparr>cwd := cp\<rparr>),
         w\<lparr>cwd := cp\<rparr>)"
    using handle_cd_success [of "''..''" w st] par ok t1 by auto
  let ?st1 = "update_file_cache (st\<lparr>current_dir := abs_path (butlast names)\<rparr>) (w\<lparr>cwd := cp\<rparr>)"
  let ?w1 = "w\<lparr>cwd := cp\<rparr>"
  have na: "\<not> isabs (last names)" "last names \<noteq> ''..''" "last names \<noteq> []"
    using vl by (cases "last names"; auto simp: valid_name_def isabs_def startswith_def)+
  have t2: "cd_target ?st1 ?w1 (last names) = abs_path names"
    using na tok path_join_abs_path [OF vb vl] ns normpath_abs_path [OF names(2)]
    by (simp add: cd_target_def)
  have own1: "os_path_isdir ?w1 (abs_path names)" "os_access_rx ?w1 (abs_path names)"
    using own by (simp_all add: os_path_isdir_def os_access_rx_def lstat_cwd isabs_abs_path)
  obtain cp2 where r2: "handle_cd ?st1 ?w1 (last names)
      = (([], True), update_file_cache (?st1\<lparr>current_dir := abs_path names\<rparr>) (?w1\<lparr>cwd := cp2\<rparr>),
         ?w1\<lparr>cwd := cp2\<rparr>)"
    using handle_cd_success [of "last names" ?w1 ?st1] na(3) own1 ok t2 by auto
  show ?thesis
    by (simp add: up_and_back_def r1 r2 cur)
qed

theorem parent_and_back_witness:
  "[''home'', ''u'', ''sub''] \<noteq> []
   \<and> valid_name ''home'' \<and> valid_name ''u'' \<and> valid_name ''sub''
   \<and> current_dir (ex_agent\<lparr>current_dir := ''/home/u/sub''\<rparr>) = abs_path [''home'', ''u'', ''sub'']
   \<and> os_path_isdir ex_world (abs_path [''home'', ''u''])
   \<and> os_access_rx ex_world (abs_path [''home'', ''u''])
   \<and> os_path_isdir ex_world (abs_path [''home'', ''u'', ''sub''])
   \<and> os_access_rx ex_world (abs_path [''home'', ''u'', ''sub''])
   \<and> chdir_refused ex_world = []
   \<and> current_dir (up_and_back (ex_agent\<lparr>current_dir := ''/home/u/sub''\<rparr>) ex_world ''sub'')
       = ''/home/u/sub''"
proof -
  have v: "valid_name ''home''" "valid_name ''u''" "valid_name ''sub''"
    by (simp_all add: valid_name_def)
  have c: "current_dir (ex_agent\<lparr>current_dir := ''/home/u/sub''\<rparr>) = abs_path [''home'', ''u'', ''sub'']"
    by (simp add: abs_path_def)
  have p: "os_path_isdir ex_world (abs_path [''home'', ''u''])"
          "os_access_rx ex_world (abs_path [''home'', ''u''])"
    by code_simp+
  have o: "os_path_isdir ex_world (abs_path [''home'', ''u'', ''sub''])"
          "os_access_rx ex_world (abs_path [''home'', ''u'', ''sub''])"
    by code_simp+
  have r: "chdir_refused ex_world = []"
    by (simp add: ex_world_def)
  have "current_dir (up_and_back (ex_agent\<lparr>current_dir := ''/home/u/sub''\<rparr>) ex_world
                       (last [''home'', ''u'', ''sub'']))
          = current_dir (ex_agent\<lparr>current_dir := ''/home/u/sub''\<rparr>)"
    using v c p o r
    by (intro parent_and_back [where names = "[''home'', ''u'', ''sub'']"]) simp_all
  then show ?thesis
    using v c p o r by simp
qed

text \<open>The claim as stated fails in two ways, each with a parent that is a readable and
  searchable directory: a directory named \<open>~\<close> is left for the home directory, and a
  directory that is searchable but not readable cannot be entered again.\<close>

theorem parent_and_back_fails:
  "os_path_isdir ex_world_tilde ''/home/u'' \<and> os_access_rx ex_world_tilde ''/home/u''
   \<and> basename ''/home/u/~'' = ''~''
   \<and> current_dir (up_and_back (ex_agent\<lparr>current_dir := ''/home/u/~''\<rparr>) ex_world_tilde ''~'')
       = ''/home/u''
   \<and> os_path_isdir ex_world ''/home/u'' \<and> os_access_rx ex_world ''/home/u''
   \<and> basename ''/home/u/locked'' = ''locked''
   \<and> current_dir (up_and_back (ex_agent\<lparr>current_dir := ''/home/u/locked''\<rparr>) ex_world ''locked'')
       = ''/home/u''"
  by code_simp

section \<open>Resolution of joined paths\<close>

lemma split_on_nonempty [simp]: "split_on c s \<noteq> []"
  by (induction s) (auto split: list.splits)








lemma update_absent: "map_of t k = None \<Longrightarrow> AList.update k v t = t @ [(k, v)]"
  by (induction t) (auto split: if_splits)





section \<open>Create, then remove\<close>




section \<open>The tree listing\<close>

lemma trace_unreadable:
  "os_listdir w d = Inl e \<Longrightarrow>
     build_tree_trace w d p lvl
       = [\<lparr>ln_level = lvl, ln_item = None, ln_path = d,
           ln_text = p @ TREE_LAST @ ''[Error reading directory]''\<rparr>]"
  by (subst build_tree_trace.simps) simp

lemma trace_readable:
  "os_listdir w d = Inr names \<Longrightarrow>
     build_tree_trace w d p lvl
       = concat (map (\<lambda>i. item_line w d p lvl (visible names) i
                          # (if os_path_isdir w (path_join d (visible names ! i)) \<and> lvl < 3
                             then build_tree_trace w (path_join d (visible names ! i))
                                    (child_prefix p (visible names) i) (lvl + 1)
                             else []))
                    [0 ..< length (visible names)])"
  by (subst build_tree_trace.simps)
     (simp add: Let_def visible_def item_line_def child_prefix_def cong: if_cong)

lemma trace_member:
  assumes "os_listdir w d = Inr names" "l \<in> set (build_tree_trace w d p lvl)"
  shows "\<exists>i < length (visible names).
           l = item_line w d p lvl (visible names) i
           \<or> (os_path_isdir w (path_join d (visible names ! i)) \<and> lvl < 3
              \<and> l \<in> set (build_tree_trace w (path_join d (visible names ! i))
                           (child_prefix p (visible names) i) (lvl + 1)))"
  using assms(2) unfolding trace_readable [OF assms(1)]
  by (auto split: if_splits)

lemma trace_levels:
  "l \<in> set (build_tree_trace w d p lvl) \<Longrightarrow> lvl \<le> ln_level l \<and> ln_level l \<le> max lvl 3"
proof (induction w d p lvl arbitrary: l rule: build_tree_trace.induct)
  case (1 w dir_path prefix level)
  show ?case
  proof (cases "os_listdir w dir_path")
    case (Inl e)
    then show ?thesis using "1.prems" by (simp add: trace_unreadable)
  next
    case (Inr names)
    have IH: "level + 1 \<le> ln_level l' \<and> ln_level l' \<le> max (level + 1) 3"
      if "i < length (visible names)" "os_path_isdir w (path_join dir_path (visible names ! i))" "level < 3"
         "l' \<in> set (build_tree_trace w (path_join dir_path (visible names ! i))
                      (child_prefix prefix (visible names) i) (level + 1))" for i l'
      using "1.IH" [OF Inr refl refl _ refl refl refl refl, of i l'] that
      by (simp add: visible_def child_prefix_def)
    from trace_member [OF Inr "1.prems"] obtain i where i: "i < length (visible names)"
      and l: "l = item_line w dir_path prefix level (visible names) i
             \<or> (os_path_isdir w (path_join dir_path (visible names ! i)) \<and> level < 3
                \<and> l \<in> set (build_tree_trace w (path_join dir_path (visible names ! i))
                             (child_prefix prefix (visible names) i) (level + 1)))"
      by blast
    from l show ?thesis
    proof
      assume "l = item_line w dir_path prefix level (visible names) i"
      then show ?thesis by (simp add: item_line_def)
    next
      assume a: "os_path_isdir w (path_join dir_path (visible names ! i)) \<and> level < 3
                \<and> l \<in> set (build_tree_trace w (path_join dir_path (visible names ! i))
                             (child_prefix prefix (visible names) i) (level + 1))"
      then show ?thesis using IH [OF i, of l] by auto
    qed
  qed
qed

lemma visible_not_hidden: "n \<in> set (visible names) \<Longrightarrow> \<not> startswith n ''.'' \<and> n \<in> set names"
  by (simp add: visible_def)

text \<open>Every entry line stands for an item reached from the directory of the call by a
  chain of visible names, one name per level.\<close>

lemma trace_chain:
  "l \<in> set (build_tree_trace w d p lvl) \<Longrightarrow> ln_item l \<noteq> None \<Longrightarrow>
     \<exists>ns. ns \<noteq> [] \<and> length ns = Suc (ln_level l - lvl) \<and> ln_path l = foldl path_join d ns
          \<and> ln_item l = Some (last ns) \<and> (\<forall>n\<in>set ns. \<not> startswith n ''.'')"
proof (induction w d p lvl arbitrary: l rule: build_tree_trace.induct)
  case (1 w dir_path prefix level)
  show ?case
  proof (cases "os_listdir w dir_path")
    case (Inl e)
    then show ?thesis using "1.prems" by (simp add: trace_unreadable)
  next
    case (Inr names)
    from trace_member [OF Inr "1.prems"(1)] obtain i where i: "i < length (visible names)"
      and l: "l = item_line w dir_path prefix level (visible names) i
             \<or> (os_path_isdir w (path_join dir_path (visible names ! i)) \<and> level < 3
                \<and> l \<in> set (build_tree_trace w (path_join dir_path (visible names ! i))
                             (child_prefix prefix (visible names) i) (level + 1)))"
      by blast
    have vis: "\<not> startswith (visible names ! i) ''.''"
      using i visible_not_hidden nth_mem by blast
    from l show ?thesis
    proof
      assume "l = item_line w dir_path prefix level (visible names) i"
      then show ?thesis
        using vis by (intro exI [of _ "[visible names ! i]"]) (simp add: item_line_def)
    next
      assume a: "os_path_isdir w (path_join dir_path (visible names ! i)) \<and> level < 3
                \<and> l \<in> set (build_tree_trace w (path_join dir_path (visible names ! i))
                             (child_prefix prefix (visible names) i) (level + 1))"
      have "\<exists>ns. ns \<noteq> [] \<and> length ns = Suc (ln_level l - (level + 1))
              \<and> ln_path l = foldl path_join (path_join dir_path (visible names ! i)) ns
              \<and> ln_item l = Some (last ns) \<and> (\<forall>n\<in>set ns. \<not> startswith n ''.'')"
        using "1.IH" [OF Inr refl refl _ refl refl refl refl, of i l] a i "1.prems"(2)
        by (simp add: visible_def child_prefix_def)
      then obtain ns where ns: "ns \<noteq> []" "length ns = Suc (ln_level l - (level + 1))"
          "ln_path l = foldl path_join (path_join dir_path (visible names ! i)) ns"
          "ln_item l = Some (last ns)" "\<forall>n\<in>set ns. \<not> startswith n ''.''"
        by blast
      have lv: "level + 1 \<le> ln_level l" using trace_levels a by blast
      show ?thesis
        using ns vis lv by (intro exI [of _ "(visible names ! i) # ns"]) auto
    qed
  qed
qed

text \<open>The lines that a call appends for its own directory are the visible names of that
  directory, in sorted order.\<close>

lemma trace_siblings:
  assumes "os_listdir w d = Inr names"
  shows "map ln_item (filter (\<lambda>l. ln_level l = lvl) (build_tree_trace w d p lvl))
           = map Some (visible names)"
proof -
  let ?sub = "\<lambda>i. (if os_path_isdir w (path_join d (visible names ! i)) \<and> lvl < 3
                    then build_tree_trace w (path_join d (visible names ! i))
                           (child_prefix p (visible names) i) (lvl + 1)
                    else [])"
  have deeper: "filter (\<lambda>l. ln_level l = lvl) (?sub i) = []" for i
  proof -
    have "ln_level l \<noteq> lvl"
      if "l \<in> set (build_tree_trace w (path_join d (visible names ! i))
                     (child_prefix p (visible names) i) (lvl + 1))" for l
      using trace_levels [OF that] by simp
    then show ?thesis by (auto simp: filter_empty_conv)
  qed
  have "filter (\<lambda>l. ln_level l = lvl) (build_tree_trace w d p lvl)
          = concat (map (\<lambda>i. [item_line w d p lvl (visible names) i]) [0 ..< length (visible names)])"
    unfolding trace_readable [OF assms] filter_concat map_map comp_def
    using deeper by (simp add: item_line_def)
  also have "\<dots> = map (\<lambda>i. item_line w d p lvl (visible names) i) [0 ..< length (visible names)]"
    by (induction "[0 ..< length (visible names)]") (simp_all add: concat_map_singleton)
  finally have "map ln_item (filter (\<lambda>l. ln_level l = lvl) (build_tree_trace w d p lvl))
          = map (\<lambda>i. Some (visible names ! i)) [0 ..< length (visible names)]"
    by (simp add: item_line_def comp_def)
  also have "\<dots> = map Some (map (\<lambda>i. visible names ! i) [0 ..< length (visible names)])"
    by simp
  also have "\<dots> = map Some (visible names)"
    by (simp only: map_nth)
  finally show ?thesis .
qed

text \<open>
  Claim C6, as the code has it. \<open>listTree\<close> calls itself down to level 3, the root's
  own entries being level 0: every rendered entry is reached from the root by a chain
  of at most 4 names (so entries 4 levels below the root are rendered, and none deeper),
  and no name of the chain starts with the hidden-entry marker. The lines that a call
  appends for its own directory are the visible names of that directory in sorted order,
  and a directory that cannot be read yields the single error marker line.
\<close>

theorem list_tree_properties:
  "(\<forall>l\<in>set (build_tree_trace w d p 0). ln_level l \<le> 3)
   \<and> (\<forall>l\<in>set (build_tree_trace w d p 0). ln_item l \<noteq> None \<longrightarrow>
         (\<exists>ns. length ns = Suc (ln_level l) \<and> length ns \<le> 4 \<and> ln_path l = foldl path_join d ns
               \<and> ln_item l = Some (last ns) \<and> (\<forall>n\<in>set ns. \<not> startswith n ''.'')))
   \<and> (os_listdir w d = Inr names \<longrightarrow>
         map ln_item (filter (\<lambda>l. ln_level l = lvl) (build_tree_trace w d p lvl))
           = map Some (sort (filter (\<lambda>n. \<not> startswith n ''.'') names)))
   \<and> (os_listdir w d = Inl e \<longrightarrow>
         build_tree w d p lvl = [p @ TREE_LAST @ ''[Error reading directory]''])"
proof -
  have a: "ln_level l \<le> 3" if "l \<in> set (build_tree_trace w d p 0)" for l
    using trace_levels [OF that] by simp
  have b: "\<exists>ns. length ns = Suc (ln_level l) \<and> length ns \<le> 4 \<and> ln_path l = foldl path_join d ns
               \<and> ln_item l = Some (last ns) \<and> (\<forall>n\<in>set ns. \<not> startswith n ''.'')"
    if "l \<in> set (build_tree_trace w d p 0)" "ln_item l \<noteq> None" for l
    using trace_chain [OF that] a [OF that(1)] by auto
  have c: "map ln_item (filter (\<lambda>l. ln_level l = lvl) (build_tree_trace w d p lvl))
             = map Some (sort (filter (\<lambda>n. \<not> startswith n ''.'') names))"
    if "os_listdir w d = Inr names"
    using trace_siblings [OF that] by (simp add: visible_def)
  have d: "build_tree w d p lvl = [p @ TREE_LAST @ ''[Error reading directory]'']"
    if "os_listdir w d = Inl e"
    using trace_unreadable [OF that] by (simp add: build_tree_def)
  show ?thesis
    using a b c d by blast
qed

theorem list_tree_properties_witness:
  "\<lparr>ln_level = 3, ln_item = Some ''d'', ln_path = ''/r/a/b/c/d'',
     ln_text = TREE_SPACE @ TREE_SPACE @ TREE_SPACE @ TREE_LAST @ ''d/''\<rparr>
     \<in> set (build_tree_trace ex_world_deep ''/r'' [] 0)
   \<and> (\<exists>ns. length ns = 4 \<and> ''/r/a/b/c/d'' = foldl path_join ''/r'' ns \<and> last ns = ''d'')
   \<and> os_listdir ex_world ''/home/u'' = Inr [''a.py'', ''b.py'', ''c.py'', ''sub'', ''.git'', ''locked'']
   \<and> map ln_item (filter (\<lambda>l. ln_level l = 0) (build_tree_trace ex_world ''/home/u'' [] 0))
       = map Some [''a.py'', ''b.py'', ''c.py'', ''locked'', ''sub'']
   \<and> os_listdir ex_world ''/home/u/locked'' = Inl EACCES
   \<and> build_tree ex_world ''/home/u/locked'' TREE_BRANCH 1
       = [TREE_BRANCH @ TREE_LAST @ ''[Error reading directory]'']"
proof -
  let ?l = "\<lparr>ln_level = 3, ln_item = Some ''d'', ln_path = ''/r/a/b/c/d'',
              ln_text = TREE_SPACE @ TREE_SPACE @ TREE_SPACE @ TREE_LAST @ ''d/''\<rparr>"
  have m: "?l \<in> set (build_tree_trace ex_world_deep ''/r'' [] 0)"
    by code_simp
  have "\<exists>ns. length ns = Suc (ln_level ?l) \<and> length ns \<le> 4 \<and> ln_path ?l = foldl path_join ''/r'' ns
               \<and> ln_item ?l = Some (last ns) \<and> (\<forall>n\<in>set ns. \<not> startswith n ''.'')"
    using list_tree_properties [of ex_world_deep "''/r''" "[]", THEN conjunct2, THEN conjunct1,
        THEN bspec, OF m, THEN mp]
    by simp
  then have c: "\<exists>ns. length ns = 4 \<and> ''/r/a/b/c/d'' = foldl path_join ''/r'' ns \<and> last ns = ''d''"
    by auto
  have r: "os_listdir ex_world ''/home/u'' = Inr [''a.py'', ''b.py'', ''c.py'', ''sub'', ''.git'', ''locked'']"
    by code_simp
  have s: "sort (filter (\<lambda>n. \<not> startswith n ''.'') [''a.py'', ''b.py'', ''c.py'', ''sub'', ''.git'', ''locked''])
             = [''a.py'', ''b.py'', ''c.py'', ''locked'', ''sub'']"
    by code_simp
  have sib: "map ln_item (filter (\<lambda>l. ln_level l = 0) (build_tree_trace ex_world ''/home/u'' [] 0))
       = map Some [''a.py'', ''b.py'', ''c.py'', ''locked'', ''sub'']"
    using r s
      list_tree_properties [where w = ex_world and d = "''/home/u''" and p = "[]" and lvl = 0
        and names = "[''a.py'', ''b.py'', ''c.py'', ''sub'', ''.git'', ''locked'']",
        THEN conjunct2, THEN conjunct2, THEN conjunct1]
    by simp
  have u: "os_listdir ex_world ''/home/u/locked'' = Inl EACCES"
    by code_simp
  have mk: "build_tree ex_world ''/home/u/locked'' TREE_BRANCH 1
       = [TREE_BRANCH @ TREE_LAST @ ''[Error reading directory]'']"
    using u
      list_tree_properties [where w = ex_world and d = "''/home/u/locked''" and p = TREE_BRANCH
        and lvl = 1 and e = EACCES, THEN conjunct2, THEN conjunct2, THEN conjunct2]
    by simp
  show ?thesis
    using m c r sib u mk by blast
qed

text \<open>The claim as stated fails: the directory \<open>/r/a/b/c/d\<close>, four levels below the root
  \<open>/r\<close> of the listing, is rendered (at level 3); only its content is left out.\<close>

theorem list_tree_renders_fourth_level:
  "map (\<lambda>l. (ln_level l, ln_path l)) (build_tree_trace ex_world_deep ''/r'' [] 0)
     = [(0, ''/r/a''), (1, ''/r/a/b''), (2, ''/r/a/b/c''), (3, ''/r/a/b/c/d'')]
   \<and> build_tree ex_world_deep ''/r'' [] 0
     = [TREE_LAST @ ''a/'',
        TREE_SPACE @ TREE_LAST @ ''b/'',
        TREE_SPACE @ TREE_SPACE @ TREE_LAST @ ''c/'',
        TREE_SPACE @ TREE_SPACE @ TREE_SPACE @ TREE_LAST @ ''d/'']"
  by code_simp

section \<open>Referenced files\<close>

lemma insort_key_front: "(\<forall>y\<in>set xs. f x \<le> f y) \<Longrightarrow> insort_key f x xs = x # xs"
  by (cases xs) simp_all

lemma sort_key_const:
  assumes "\<forall>x\<in>set xs. \<forall>y\<in>set xs. f x = f y"
  shows "sort_key f xs = xs"
  using assms
proof (induction xs)
  case Nil
  then show ?case by simp
next
  case (Cons x xs)
  have ih: "sort_key f xs = xs"
    using Cons.IH Cons.prems by (meson list.set_intros(2))
  have le: "\<forall>y\<in>set xs. f x \<le> f y"
    using Cons.prems by (metis list.set_intros(1) list.set_intros(2) order_refl)
  have "sort_key f (x # xs) = insort_key f x (sort_key f xs)"
    by simp
  then show ?case
    by (simp only: ih insort_key_front [OF le])
qed

lemma py_list_of_set_props:
  "distinct (py_list_of_set slot xs) \<and> set (py_list_of_set slot xs) = set xs
   \<and> length (py_list_of_set slot xs) = card (set xs)"
proof -
  have "length (remdups (rev xs)) = card (set xs)"
    using length_remdups_card_conv [of "rev xs"] by simp
  then show ?thesis by (simp add: py_list_of_set_def)
qed

lemma slot_of_nth:
  assumes "distinct ys" "i < length ys"
  shows "slot_of ys (ys ! i) = i"
proof -
  have "takeWhile (\<lambda>y. y \<noteq> ys ! i) ys = take i ys"
    using assms by (intro takeWhile_eq_take_P_nth) (auto simp: nth_eq_iff_index_eq)
  then show ?thesis
    using assms by (simp add: slot_of_def)
qed

lemma slot_of_map: "distinct ys \<Longrightarrow> map (slot_of ys) ys = [0..<length ys]"
  by (rule nth_equalityI) (simp_all add: slot_of_nth)

lemma slot_of_inj: "distinct ys \<Longrightarrow> inj_on (slot_of ys) (set ys)"
  by (auto simp: inj_on_def in_set_conv_nth slot_of_nth)

lemma py_list_of_set_slot_of:
  assumes "distinct ys" "set ys = set xs"
  shows "py_list_of_set (slot_of ys) xs = ys"
proof -
  let ?f = "slot_of ys"
  let ?zs = "sort_key ?f (rev (remdups (rev xs)))"
  have s: "set ?zs = set ys"
    using assms(2) by simp
  have d: "distinct ?zs"
    by simp
  have i: "inj_on ?f (set ?zs \<union> set ys)"
    using slot_of_inj [OF assms(1)] s by simp
  have "sorted (map ?f ?zs)" "distinct (map ?f ?zs)" "set (map ?f ?zs) = ?f ` set ys"
    using i d s by (simp_all add: distinct_map inj_on_Un)
  moreover have "sorted (map ?f ys)" "distinct (map ?f ys)"
    using assms(1) by (simp_all add: slot_of_map)
  moreover have "set (map ?f ys) = ?f ` set ys"
    by simp
  ultimately have "map ?f ?zs = map ?f ys"
    by (metis sorted_distinct_set_unique)
  then have "?zs = ys"
    using i by (simp add: inj_on_map_eq_map)
  then show ?thesis
    by (simp add: py_list_of_set_def)
qed

text \<open>The files whose content \<open>_get_context\<close> reads are \<open>files_to_include\<close>.\<close>

lemma get_context_included:
  "get_context slot st w q =
     (let st1 = snd (find_file_references slot st w q);
          context_parts =
            [''Current Directory: '' @ current_dir st1,
             ''Available files/dirs in current directory (excluding hidden):'']
            @ context_items (file_cache st1);
          r2 = (if files_to_include slot st w q \<noteq> []
                then foldl (include_step w)
                       (context_parts @ [[CHR 0x0A] @ ''Relevant File Content:''], st1)
                       (files_to_include slot st w q)
                else (context_parts, st1))
      in (''sonar-reasoning-pro'', py_join [CHR 0x0A] (fst r2), snd r2))"
  by (simp add: get_context_def files_to_include_def Let_def)

text \<open>
  Claim C3, as the code has it. The candidates that resolve are deduplicated through a
  set, and \<open>_get_context\<close> reads the content of the first two of the list made from
  that set, and of no other file: they are distinct, they are among the candidates found,
  and they are exactly two when more than two distinct candidates were found. Which two
  they are follows the order in which that one set is iterated, which the code leaves
  open: it is the scan order when the ranking does not tell the strings apart, and for
  every arrangement of the candidates there is a ranking under which the first two of that
  arrangement are the files included.
\<close>

theorem included_files:
  "get_context slot st w q =
     (let st1 = snd (find_file_references slot st w q);
          context_parts =
            [''Current Directory: '' @ current_dir st1,
             ''Available files/dirs in current directory (excluding hidden):'']
            @ context_items (file_cache st1);
          r2 = (if files_to_include slot st w q \<noteq> []
                then foldl (include_step w)
                       (context_parts @ [[CHR 0x0A] @ ''Relevant File Content:''], st1)
                       (files_to_include slot st w q)
                else (context_parts, st1))
      in (''sonar-reasoning-pro'', py_join [CHR 0x0A] (fst r2), snd r2))
   \<and> files_to_include slot st w q = take 2 (py_list_of_set slot (found_files st w q))
   \<and> distinct (files_to_include slot st w q)
   \<and> set (files_to_include slot st w q) \<subseteq> set (found_files st w q)
   \<and> length (files_to_include slot st w q) = min 2 (card (set (found_files st w q)))
   \<and> (2 < card (set (found_files st w q)) \<longrightarrow> length (files_to_include slot st w q) = 2)
   \<and> ((\<forall>a b. slot a = slot b) \<longrightarrow>
         files_to_include slot st w q = take 2 (rev (remdups (rev (found_files st w q)))))
   \<and> (\<forall>ys. distinct ys \<and> set ys = set (found_files st w q) \<longrightarrow>
         files_to_include (slot_of ys) st w q = take 2 ys)"
proof -
  have e: "files_to_include slot' st w q = take 2 (py_list_of_set slot' (found_files st w q))" for slot'
    by (simp add: files_to_include_def find_file_references_def found_files_def Let_def)
  have s: "set (take 2 (py_list_of_set slot (found_files st w q))) \<subseteq> set (found_files st w q)"
    using set_take_subset [of 2 "py_list_of_set slot (found_files st w q)"] py_list_of_set_props [of slot "found_files st w q"]
    by simp
  have c: "py_list_of_set slot (found_files st w q) = rev (remdups (rev (found_files st w q)))"
    if "\<forall>a b. slot a = slot b"
    unfolding py_list_of_set_def using that by (intro sort_key_const) auto
  have p: "distinct (files_to_include slot st w q)
           \<and> length (files_to_include slot st w q) = min 2 (card (set (found_files st w q)))"
    using py_list_of_set_props [of slot "found_files st w q"] by (simp add: e)
  have a: "files_to_include (slot_of ys) st w q = take 2 ys"
    if "distinct ys \<and> set ys = set (found_files st w q)" for ys
    using that by (simp add: e py_list_of_set_slot_of)
  show ?thesis
    using get_context_included [of slot st w q] e [of slot] s c p a
    by (intro conjI) (simp_all del: One_nat_def)
qed

theorem included_files_witness:
  "found_files ex_agent ex_world ''compare a.py with b.py and c.py'' = [''a.py'', ''b.py'', ''c.py'']
   \<and> 2 < card (set (found_files ex_agent ex_world ''compare a.py with b.py and c.py''))
   \<and> length (files_to_include slot_c ex_agent ex_world ''compare a.py with b.py and c.py'') = 2
   \<and> files_to_include slot0 ex_agent ex_world ''compare a.py with b.py and c.py'' = [''a.py'', ''b.py'']
   \<and> files_to_include (slot_of [''b.py'', ''c.py'', ''a.py'']) ex_agent ex_world
         ''compare a.py with b.py and c.py'' = [''b.py'', ''c.py'']"
proof -
  let ?q = "''compare a.py with b.py and c.py''"
  have f: "found_files ex_agent ex_world ?q = [''a.py'', ''b.py'', ''c.py'']"
    by code_simp
  have k: "2 < card (set (found_files ex_agent ex_world ?q))"
    unfolding f by code_simp
  have l: "length (files_to_include slot_c ex_agent ex_world ?q) = 2"
    using k included_files [of slot_c ex_agent ex_world ?q] by blast
  have z: "\<forall>a b. slot0 a = slot0 b"
    by (simp add: slot0_def)
  have "files_to_include slot0 ex_agent ex_world ?q
          = take 2 (rev (remdups (rev (found_files ex_agent ex_world ?q))))"
    using z included_files [of slot0 ex_agent ex_world ?q] by blast
  then have o: "files_to_include slot0 ex_agent ex_world ?q = [''a.py'', ''b.py'']"
    unfolding f by simp
  have y: "distinct [''b.py'', ''c.py'', ''a.py'']
           \<and> set [''b.py'', ''c.py'', ''a.py''] = set (found_files ex_agent ex_world ?q)"
    unfolding f by code_simp
  have "files_to_include (slot_of [''b.py'', ''c.py'', ''a.py'']) ex_agent ex_world ?q
          = take 2 [''b.py'', ''c.py'', ''a.py'']"
    using y included_files [of slot0 ex_agent ex_world ?q] by blast
  then have n: "files_to_include (slot_of [''b.py'', ''c.py'', ''a.py'']) ex_agent ex_world ?q
                  = [''b.py'', ''c.py'']"
    by simp
  show ?thesis
    using f k l o n by blast
qed

text \<open>The claim as stated fails: with a set order that puts \<open>c.py\<close> first, the files
  included are \<open>c.py\<close> and \<open>a.py\<close>, not the first two of the scan, and the context
  holds their two sections in that order.\<close>

theorem included_not_first_seen:
  "found_files ex_agent ex_world ''compare a.py with b.py and c.py'' = [''a.py'', ''b.py'', ''c.py'']
   \<and> files_to_include slot_c ex_agent ex_world ''compare a.py with b.py and c.py'' = [''c.py'', ''a.py'']
   \<and> fst (snd (get_context slot_c ex_agent ex_world ''compare a.py with b.py and c.py''))
       = ''Current Directory: /home/u'' @ [CHR 0x0A]
         @ ''Available files/dirs in current directory (excluding hidden):'' @ [CHR 0x0A]
         @ ''- a.py'' @ [CHR 0x0A] @ ''- b.py'' @ [CHR 0x0A] @ ''- c.py'' @ [CHR 0x0A]
         @ ''- locked/'' @ [CHR 0x0A] @ ''- sub/'' @ [CHR 0x0A] @ [CHR 0x0A]
         @ ''Relevant File Content:'' @ [CHR 0x0A] @ [CHR 0x0A]
         @ ''(Could not read content of c.py)'' @ [CHR 0x0A] @ [CHR 0x0A]
         @ ''--- a.py ---'' @ [CHR 0x0A] @ ''print(1)'' @ [CHR 0x0A] @ ''--- End a.py ---''"
  by code_simp

section \<open>The keys of the snapshot\<close>








section \<open>Normal paths\<close>












section \<open>Adding and removing one entry\<close>




section \<open>The operations on the snapshot\<close>










section \<open>Keys registered by context assembly\<close>












end
